theory Spec2Isabelle
  imports Main "HOL-Library.Word"
begin

section \<open>Configuration of the sketch\<close>

text \<open>
  The sketch \<^verbatim>\<open>smart_door_lock.ino\<close> targets the Arduino Uno: \<^verbatim>\<open>unsigned long\<close> is a
  32-bit unsigned integer whose arithmetic wraps around, so the millisecond clock and the
  two time stamps are \<open>32 word\<close>. The \<^verbatim>\<open>int\<close> variables (\<^verbatim>\<open>inputIndex\<close>,
  \<^verbatim>\<open>failedAttempts\<close>, servo angles) are modelled as \<open>int\<close>: the invariants below show
  that they stay within \<open>0..180\<close> in every reachable state, far from the 16-bit bounds.
\<close>

type_synonym ulong = "32 word"

definition PIN_LED_RED :: int where "PIN_LED_RED = 2"
definition PIN_LED_GRN :: int where "PIN_LED_GRN = 3"
definition PIN_BUZZER :: int where "PIN_BUZZER = 5"

text \<open>\<^verbatim>\<open>const char PASSWORD[] = "12345678"\<close>: nine bytes, the last one the terminator.\<close>

definition PASSWORD :: "char list" where
  "PASSWORD = ''12345678'' @ [CHR 0x00]"

definition PASS_LEN :: int where "PASS_LEN = 8"

definition IDLE_TIMEOUT_MS :: ulong where "IDLE_TIMEOUT_MS = 10000"
definition LOCKOUT_MS :: ulong where "LOCKOUT_MS = 15000"

definition MAX_ATTEMPTS :: int where "MAX_ATTEMPTS = 3"

definition SERVO1_CLOSED :: int where "SERVO1_CLOSED = 0"
definition SERVO1_OPEN :: int where "SERVO1_OPEN = 90"
definition SERVO2_CLOSED :: int where "SERVO2_CLOSED = 180"
definition SERVO2_OPEN :: int where "SERVO2_OPEN = 90"

definition SERVO_STEP_DELAY_MS :: int where "SERVO_STEP_DELAY_MS = 10"

section \<open>State of the controller and of the hardware it drives\<close>

datatype State = IDLE | PROMPT | ENTRY | GRANTED | DENIED | LOCKED

datatype Servo = Servo1 | Servo2

text \<open>
  Every call into the Arduino libraries is an event of the trace, in program order.
  Writes to the variable \<^verbatim>\<open>state\<close> are recorded too (\<open>StateSet\<close>), so that the states a
  single pass of \<^verbatim>\<open>loop()\<close> goes through can be read from the trace.
\<close>

datatype event =
    DigitalWrite int bool
  | Tone int int int
  | NoTone int
  | Delay ulong
  | LcdClear
  | LcdSetCursor int int
  | LcdPrint string
  | LcdPrintChar char
  | LcdPrintNum ulong
  | ServoWrite Servo int
  | StateSet State

text \<open>
  The globals of the sketch, followed by the hardware: the millisecond clock read by
  \<^verbatim>\<open>millis()\<close>, the levels of the two LED pins, the angle last written to each servo, and
  the trace of library calls.
\<close>

record machine =
  state :: State
  inputBuffer :: "char list"
  inputIndex :: int
  failedAttempts :: int
  entryStartMs :: ulong
  lockoutStartMs :: ulong
  clock :: ulong
  ledRed :: bool
  ledGrn :: bool
  servo1 :: int
  servo2 :: int
  trace :: "event list"

section \<open>Library calls\<close>

definition emit :: "event \<Rightarrow> machine \<Rightarrow> machine" where
  "emit e s = s\<lparr>trace := trace s @ [e]\<rparr>"

definition millis :: "machine \<Rightarrow> ulong" where
  "millis s = clock s"

text \<open>\<^verbatim>\<open>delay(ms)\<close> blocks: the clock has advanced by \<open>ms\<close> when it returns.\<close>

definition delay :: "ulong \<Rightarrow> machine \<Rightarrow> machine" where
  "delay ms s = emit (Delay ms) (s\<lparr>clock := clock s + ms\<rparr>)"

definition digitalWrite :: "int \<Rightarrow> bool \<Rightarrow> machine \<Rightarrow> machine" where
  "digitalWrite pin v s =
     emit (DigitalWrite pin v)
       (if pin = PIN_LED_RED then s\<lparr>ledRed := v\<rparr>
        else if pin = PIN_LED_GRN then s\<lparr>ledGrn := v\<rparr>
        else s)"

definition tone :: "int \<Rightarrow> int \<Rightarrow> int \<Rightarrow> machine \<Rightarrow> machine" where
  "tone pin freq dur s = emit (Tone pin freq dur) s"

definition noTone :: "int \<Rightarrow> machine \<Rightarrow> machine" where
  "noTone pin s = emit (NoTone pin) s"

definition servo_write :: "Servo \<Rightarrow> int \<Rightarrow> machine \<Rightarrow> machine" where
  "servo_write sv pos s =
     emit (ServoWrite sv pos)
       (case sv of Servo1 \<Rightarrow> s\<lparr>servo1 := pos\<rparr> | Servo2 \<Rightarrow> s\<lparr>servo2 := pos\<rparr>)"

definition setState :: "State \<Rightarrow> machine \<Rightarrow> machine" where
  "setState st s = emit (StateSet st) (s\<lparr>state := st\<rparr>)"

section \<open>Helpers\<close>

definition ledsOff :: "machine \<Rightarrow> machine" where
  "ledsOff s = digitalWrite PIN_LED_GRN False (digitalWrite PIN_LED_RED False s)"

definition ledGranted :: "machine \<Rightarrow> machine" where
  "ledGranted s = digitalWrite PIN_LED_GRN True (digitalWrite PIN_LED_RED False s)"

definition ledDenied :: "machine \<Rightarrow> machine" where
  "ledDenied s = digitalWrite PIN_LED_RED True (digitalWrite PIN_LED_GRN False s)"

definition beepSuccess :: "machine \<Rightarrow> machine" where
  "beepSuccess s =
     noTone PIN_BUZZER (delay 200 (tone PIN_BUZZER 1500 150
       (delay 170 (tone PIN_BUZZER 1200 150 s))))"

definition beepError :: "machine \<Rightarrow> machine" where
  "beepError s = noTone PIN_BUZZER (delay 350 (tone PIN_BUZZER 300 300 s))"

text \<open>The loop of \<^verbatim>\<open>beepLockout\<close> runs for \<open>i = 0, 1, 2\<close>.\<close>

function beepLockout_loop :: "int \<Rightarrow> machine \<Rightarrow> machine" where
  "beepLockout_loop i s =
     (if i < 3 then beepLockout_loop (i + 1) (delay 300 (tone PIN_BUZZER 250 250 s))
      else s)"
  by pat_completeness auto
termination
  by (relation "measure (\<lambda>(i, s). nat (3 - i))") auto

definition beepLockout :: "machine \<Rightarrow> machine" where
  "beepLockout s = noTone PIN_BUZZER (beepLockout_loop 0 s)"

definition lcdHeader :: "string \<Rightarrow> string \<Rightarrow> machine \<Rightarrow> machine" where
  "lcdHeader line1 line2 s =
     emit (LcdPrint line2) (emit (LcdSetCursor 0 1)
       (emit (LcdPrint line1) (emit (LcdSetCursor 0 0) (emit LcdClear s))))"

definition resetEntry :: "machine \<Rightarrow> machine" where
  "resetEntry s =
     (let s1 = s\<lparr>inputIndex := 0\<rparr>;
          s2 = s1\<lparr>inputBuffer := (inputBuffer s1)[0 := CHR 0x00]\<rparr>
      in s2\<lparr>entryStartMs := millis s2\<rparr>)"

function printMaskedProgress_loop :: "int \<Rightarrow> machine \<Rightarrow> machine" where
  "printMaskedProgress_loop i s =
     (if i < PASS_LEN
      then printMaskedProgress_loop (i + 1)
             (emit (LcdPrintChar (if i < inputIndex s then CHR ''*'' else CHR '' '')) s)
      else s)"
  by pat_completeness auto
termination
  by (relation "measure (\<lambda>(i, s). nat (PASS_LEN - i))") auto

definition printMaskedProgress :: "machine \<Rightarrow> machine" where
  "printMaskedProgress s = printMaskedProgress_loop 0 (emit (LcdSetCursor 0 1) s)"

text \<open>
  \<^verbatim>\<open>isPasswordCorrect\<close> leaves the loop with \<^verbatim>\<open>return false\<close> at the first position that
  differs. The second component counts the positions the loop has compared when it returns.
\<close>

function isPasswordCorrect_loop :: "int \<Rightarrow> nat \<Rightarrow> machine \<Rightarrow> bool \<times> nat" where
  "isPasswordCorrect_loop i n s =
     (if i < PASS_LEN
      then (if inputBuffer s ! nat i \<noteq> PASSWORD ! nat i then (False, Suc n)
            else isPasswordCorrect_loop (i + 1) (Suc n) s)
      else (True, n))"
  by pat_completeness auto
termination
  by (relation "measure (\<lambda>(i, n, s). nat (PASS_LEN - i))") auto

definition isPasswordCorrect_run :: "machine \<Rightarrow> bool \<times> nat" where
  "isPasswordCorrect_run s = isPasswordCorrect_loop 0 0 s"

definition isPasswordCorrect :: "machine \<Rightarrow> bool" where
  "isPasswordCorrect s = fst (isPasswordCorrect_run s)"

text \<open>
  The loop of \<^verbatim>\<open>moveServoSmooth\<close>, \<^verbatim>\<open>for (pos = fromDeg; pos != toDeg; pos += step)\<close>. The
  source fixes \<^verbatim>\<open>step\<close> before the loop as \<open>1\<close> when \<^verbatim>\<open>toDeg > fromDeg\<close> and \<open>-1\<close>
  otherwise; \<open>pos\<close> then stays on the same side of \<open>toDeg\<close> until it meets it, so the
  same value is obtained from \<open>pos\<close> at each iteration, which is what makes the loop total.
\<close>

function moveServoSmooth_loop :: "Servo \<Rightarrow> int \<Rightarrow> int \<Rightarrow> machine \<Rightarrow> machine" where
  "moveServoSmooth_loop sv pos toDeg s =
     (if pos \<noteq> toDeg
      then moveServoSmooth_loop sv (pos + (if toDeg > pos then 1 else - 1)) toDeg
             (delay (word_of_int SERVO_STEP_DELAY_MS) (servo_write sv pos s))
      else s)"
  by pat_completeness auto
termination
  by (relation "measure (\<lambda>(sv, pos, toDeg, s). nat \<bar>toDeg - pos\<bar>)") auto

definition moveServoSmooth :: "Servo \<Rightarrow> int \<Rightarrow> int \<Rightarrow> machine \<Rightarrow> machine" where
  "moveServoSmooth sv fromDeg toDeg s =
     (if fromDeg = toDeg then s
      else servo_write sv toDeg (moveServoSmooth_loop sv fromDeg toDeg s))"

definition openDoor :: "machine \<Rightarrow> machine" where
  "openDoor s =
     moveServoSmooth Servo2 SERVO2_CLOSED SERVO2_OPEN
       (moveServoSmooth Servo1 SERVO1_CLOSED SERVO1_OPEN s)"

definition closeDoor :: "machine \<Rightarrow> machine" where
  "closeDoor s =
     moveServoSmooth Servo2 SERVO2_OPEN SERVO2_CLOSED
       (moveServoSmooth Servo1 SERVO1_OPEN SERVO1_CLOSED s)"

section \<open>State transitions\<close>

definition goIdle :: "machine \<Rightarrow> machine" where
  "goIdle s =
     lcdHeader ''System Idle'' ''Waiting motion''
       (setState IDLE (resetEntry (closeDoor (ledsOff s))))"

definition goPrompt :: "machine \<Rightarrow> machine" where
  "goPrompt s =
     printMaskedProgress (lcdHeader ''Enter Password:'' ''''
       (setState PROMPT (resetEntry (ledsOff s))))"

definition goGranted :: "machine \<Rightarrow> machine" where
  "goGranted s =
     goIdle (delay 500 (closeDoor (delay 2000
       (lcdHeader ''Door Open'' ''Closing soon'' (delay 2000 (openDoor (beepSuccess
         (lcdHeader ''Access Granted'' ''Opening...''
           (ledGranted (setState GRANTED s))))))))))"

definition goDenied :: "machine \<Rightarrow> machine" where
  "goDenied s =
     (let s1 = delay 1500 (beepError (lcdHeader ''Access Denied'' ''Try again''
                 (ledDenied (setState DENIED s))));
          s2 = s1\<lparr>failedAttempts := failedAttempts s1 + 1\<rparr>
      in if failedAttempts s2 \<ge> MAX_ATTEMPTS
         then ledDenied (beepLockout (lcdHeader ''LOCKED OUT'' ''Wait 15 sec''
                (setState LOCKED (s2\<lparr>lockoutStartMs := millis s2\<rparr>))))
         else goPrompt s2)"

text \<open>
  \<^verbatim>\<open>handleKeypad\<close>; \<open>key\<close> is what \<^verbatim>\<open>keypad.getKey()\<close> returned in this pass, the zero
  character when no key is pressed.
\<close>

definition handleKeypad :: "char \<Rightarrow> machine \<Rightarrow> machine" where
  "handleKeypad key s =
     (if key = CHR 0x00 then s
      else
        let s1 = s\<lparr>entryStartMs := millis s\<rparr> in
        if key = CHR ''*'' then
          goIdle (delay 800 (lcdHeader ''Cancelled'' ''Returning...'' s1))
        else if key = CHR ''#'' then
          (if inputIndex s1 < PASS_LEN then
             printMaskedProgress (lcdHeader ''Enter Password:'' ''''
               (delay 1000 (lcdHeader ''Password short'' ''Enter 8 chars'' s1)))
           else if isPasswordCorrect s1 then goGranted (s1\<lparr>failedAttempts := 0\<rparr>)
           else goDenied s1)
        else if inputIndex s1 < PASS_LEN then
          (let s2 = s1\<lparr>inputBuffer := (inputBuffer s1)[nat (inputIndex s1) := key],
                         inputIndex := inputIndex s1 + 1\<rparr>;
               s3 = (if inputIndex s2 = PASS_LEN
                     then s2\<lparr>inputBuffer := (inputBuffer s2)[nat PASS_LEN := CHR 0x00]\<rparr>
                     else s2)
           in printMaskedProgress s3)
        else tone PIN_BUZZER 600 50 s1)"

definition handleTimeout :: "machine \<Rightarrow> machine" where
  "handleTimeout s =
     (if state s = PROMPT \<or> state s = ENTRY then
        (if millis s - entryStartMs s > IDLE_TIMEOUT_MS
         then goIdle (delay 800 (lcdHeader ''Timeout'' ''Returning...'' s))
         else s)
      else s)"

definition handleLockout :: "machine \<Rightarrow> machine" where
  "handleLockout s =
     (let elapsed = millis s - lockoutStartMs s in
      if elapsed \<ge> LOCKOUT_MS then
        goIdle (delay 800 (lcdHeader ''Unlocked'' ''Try again'' (s\<lparr>failedAttempts := 0\<rparr>)))
      else
        let remaining = (LOCKOUT_MS - elapsed) div 1000 in
        emit (LcdPrint '' sec   '') (emit (LcdPrintNum remaining)
          (emit (LcdPrint ''Wait '') (emit (LcdSetCursor 0 1) s))))"

text \<open>
  The start-up function of the sketch. \<^verbatim>\<open>pinMode\<close>, \<^verbatim>\<open>attach\<close> and \<^verbatim>\<open>lcd.begin\<close> configure the peripherals and
  change nothing that the sketch reads or that the trace records.
\<close>

definition setup_sketch :: "machine \<Rightarrow> machine" where
  "setup_sketch s =
     goIdle (servo_write Servo2 SERVO2_CLOSED (servo_write Servo1 SERVO1_CLOSED
       (noTone PIN_BUZZER (ledsOff s))))"

text \<open>
  One pass of \<^verbatim>\<open>loop()\<close>. \<open>key\<close> is the answer of \<^verbatim>\<open>keypad.getKey()\<close> and \<open>motion\<close> the
  answer of \<^verbatim>\<open>isMotionDetected()\<close>, should the pass ask for them.
\<close>

definition loop :: "char \<Rightarrow> bool \<Rightarrow> machine \<Rightarrow> machine" where
  "loop key motion s =
     (if state s = LOCKED then handleLockout s
      else if state s = IDLE then
        (if motion then
           setState ENTRY (goPrompt (delay 700
             (lcdHeader ''Motion Detected'' ''Authenticating'' s)))
         else s)
      else if state s = PROMPT \<or> state s = ENTRY then
        handleTimeout (handleKeypad key s)
      else s)"

section \<open>Runs of the sketch\<close>

text \<open>
  What the environment contributes to one pass of the main loop: the time that has gone
  by since the previous pass returned, the key the keypad reports and the level of the
  motion sensor.
\<close>

record input =
  in_key :: char
  in_motion :: bool
  in_elapsed :: ulong

definition tick :: "input \<Rightarrow> machine \<Rightarrow> machine" where
  "tick i s = loop (in_key i) (in_motion i) (s\<lparr>clock := clock s + in_elapsed i\<rparr>)"

fun run :: "input list \<Rightarrow> machine \<Rightarrow> machine" where
  "run [] s = s"
| "run (i # is) s = run is (tick i s)"

text \<open>
  The machine at reset: the globals with their initialisers (the buffer of
  \<^verbatim>\<open>PASS_LEN + 1\<close> bytes is zero-initialised), the clock at zero, both LED pins low and
  the servos at angles \<open>a1\<close> and \<open>a2\<close> that the sketch does not know.
\<close>

definition power_on :: "int \<Rightarrow> int \<Rightarrow> machine" where
  "power_on a1 a2 =
     \<lparr>state = IDLE, inputBuffer = replicate (nat (PASS_LEN + 1)) (CHR 0x00),
      inputIndex = 0, failedAttempts = 0, entryStartMs = 0, lockoutStartMs = 0,
      clock = 0, ledRed = False, ledGrn = False, servo1 = a1, servo2 = a2, trace = []\<rparr>"

inductive reachable :: "machine \<Rightarrow> bool" where
  start: "reachable (setup_sketch (power_on a1 a2))"
| step: "reachable s \<Longrightarrow> reachable (tick i s)"

text \<open>The events a pass has added to the trace.\<close>

definition new_events :: "machine \<Rightarrow> machine \<Rightarrow> event list" where
  "new_events s s' = drop (length (trace s)) (trace s')"

text \<open>The characters entered so far, and the secret without its terminator.\<close>

definition buffer_text :: "machine \<Rightarrow> char list" where
  "buffer_text s = take (nat (inputIndex s)) (inputBuffer s)"

definition secret :: "char list" where
  "secret = take (nat PASS_LEN) PASSWORD"

definition in_entry :: "machine \<Rightarrow> bool" where
  "in_entry s = (state s = PROMPT \<or> state s = ENTRY)"

definition control_key :: "char \<Rightarrow> bool" where
  "control_key k = (k = CHR ''*'' \<or> k = CHR ''#'')"

section \<open>Expected traces\<close>

definition lcdHeader_events :: "string \<Rightarrow> string \<Rightarrow> event list" where
  "lcdHeader_events line1 line2 =
     [LcdClear, LcdSetCursor 0 0, LcdPrint line1, LcdSetCursor 0 1, LcdPrint line2]"

definition masked_events :: "int \<Rightarrow> event list" where
  "masked_events filled =
     LcdSetCursor 0 1 #
     map (\<lambda>i. LcdPrintChar (if i < filled then CHR ''*'' else CHR '' '')) [0..7]"

definition ledsOff_events :: "event list" where
  "ledsOff_events = [DigitalWrite 2 False, DigitalWrite 3 False]"

definition ledGranted_events :: "event list" where
  "ledGranted_events = [DigitalWrite 2 False, DigitalWrite 3 True]"

definition ledDenied_events :: "event list" where
  "ledDenied_events = [DigitalWrite 3 False, DigitalWrite 2 True]"

definition beepSuccess_events :: "event list" where
  "beepSuccess_events = [Tone 5 1200 150, Delay 170, Tone 5 1500 150, Delay 200, NoTone 5]"

definition beepError_events :: "event list" where
  "beepError_events = [Tone 5 300 300, Delay 350, NoTone 5]"

definition beepLockout_events :: "event list" where
  "beepLockout_events =
     [Tone 5 250 250, Delay 300, Tone 5 250 250, Delay 300, Tone 5 250 250, Delay 300,
      NoTone 5]"

text \<open>
  A sweep writes every angle from the first one up (or down) to the one before the
  target, waits 10 ms after each, and ends with the target itself.
\<close>

definition sweep_positions :: "int \<Rightarrow> int \<Rightarrow> int list" where
  "sweep_positions fromDeg toDeg =
     (if fromDeg \<le> toDeg then [fromDeg..toDeg - 1] else rev [toDeg + 1..fromDeg])"

definition step_events :: "Servo \<Rightarrow> int list \<Rightarrow> event list" where
  "step_events sv ps = concat (map (\<lambda>p. [ServoWrite sv p, Delay 10]) ps)"

definition sweep_events :: "Servo \<Rightarrow> int \<Rightarrow> int \<Rightarrow> event list" where
  "sweep_events sv fromDeg toDeg =
     (if fromDeg = toDeg then []
      else step_events sv (sweep_positions fromDeg toDeg) @ [ServoWrite sv toDeg])"

definition openDoor_events :: "event list" where
  "openDoor_events = sweep_events Servo1 0 90 @ sweep_events Servo2 180 90"

definition closeDoor_events :: "event list" where
  "closeDoor_events = sweep_events Servo1 90 0 @ sweep_events Servo2 90 180"

definition goIdle_events :: "event list" where
  "goIdle_events =
     ledsOff_events @ closeDoor_events @ [StateSet IDLE] @
     lcdHeader_events ''System Idle'' ''Waiting motion''"

definition goPrompt_events :: "event list" where
  "goPrompt_events =
     ledsOff_events @ [StateSet PROMPT] @ lcdHeader_events ''Enter Password:'' '''' @
     masked_events 0"

definition set_servo :: "Servo \<Rightarrow> int \<Rightarrow> machine \<Rightarrow> machine" where
  "set_servo sv pos s =
     (case sv of Servo1 \<Rightarrow> s\<lparr>servo1 := pos\<rparr> | Servo2 \<Rightarrow> s\<lparr>servo2 := pos\<rparr>)"

definition goGranted_events :: "event list" where
  "goGranted_events =
     [StateSet GRANTED] @ ledGranted_events @
     lcdHeader_events ''Access Granted'' ''Opening...'' @ beepSuccess_events @
     openDoor_events @ [Delay 2000] @ lcdHeader_events ''Door Open'' ''Closing soon'' @
     [Delay 2000] @ closeDoor_events @ [Delay 500] @ goIdle_events"

definition denied_events :: "event list" where
  "denied_events =
     [StateSet DENIED] @ ledDenied_events @ lcdHeader_events ''Access Denied'' ''Try again'' @
     beepError_events @ [Delay 1500]"

definition lockout_events :: "event list" where
  "lockout_events =
     [StateSet LOCKED] @ lcdHeader_events ''LOCKED OUT'' ''Wait 15 sec'' @
     beepLockout_events @ ledDenied_events"

text \<open>
  What holds between two passes of the main loop: the buffer keeps its nine bytes, the
  index and the counter stay in range, the counter is at its maximum exactly during a
  lockout, the two transient states have been left, and the idle machine is at rest.
\<close>

definition lock_inv :: "machine \<Rightarrow> bool" where
  "lock_inv s \<longleftrightarrow>
     length (inputBuffer s) = 9 \<and> 0 \<le> inputIndex s \<and> inputIndex s \<le> PASS_LEN \<and>
     0 \<le> failedAttempts s \<and> failedAttempts s \<le> MAX_ATTEMPTS \<and>
     (failedAttempts s = MAX_ATTEMPTS \<longleftrightarrow> state s = LOCKED) \<and>
     state s \<noteq> GRANTED \<and> state s \<noteq> DENIED \<and>
     (state s = IDLE \<longrightarrow>
        \<not> ledRed s \<and> \<not> ledGrn s \<and> servo1 s = SERVO1_CLOSED \<and> servo2 s = SERVO2_CLOSED \<and>
        inputIndex s = 0 \<and> inputBuffer s ! 0 = CHR 0x00)"

section \<open>Concrete sessions\<close>

text \<open>
  Inputs of a pass: a key press, motion in front of the sensor, or nothing at all; the
  first two arrive 100 ms after the previous pass.
\<close>

definition press :: "char \<Rightarrow> input" where
  "press k = \<lparr>in_key = k, in_motion = False, in_elapsed = 100\<rparr>"

definition motion_seen :: input where
  "motion_seen = \<lparr>in_key = CHR 0x00, in_motion = True, in_elapsed = 100\<rparr>"

definition nothing_for :: "ulong \<Rightarrow> input" where
  "nothing_for ms = \<lparr>in_key = CHR 0x00, in_motion = False, in_elapsed = ms\<rparr>"

definition booted :: machine where
  "booted = setup_sketch (power_on 90 90)"

text \<open>
  The keys of a code, one per pass; the sessions start with motion in front of the booted
  machine.
\<close>

definition typed :: "string \<Rightarrow> machine \<Rightarrow> machine" where
  "typed code s = run (map press code) s"

definition session_right :: machine where
  "session_right = typed ''12345678'' (tick motion_seen booted)"

definition session_short :: machine where
  "session_short = typed ''1234'' (tick motion_seen booted)"

definition session_wrong :: machine where
  "session_wrong = typed ''87654321'' (tick motion_seen booted)"

text \<open>Three wrong codes, each submitted: the machine is locked out.\<close>

definition session_locked :: machine where
  "session_locked =
     tick (press CHR ''#'') (typed ''87654321''
       (tick (press CHR ''#'') (typed ''87654321''
         (tick (press CHR ''#'') session_wrong))))"

section \<open>Notions used by the properties\<close>

text \<open>The number of leading positions at which two strings agree.\<close>

definition first_mismatch :: "char list \<Rightarrow> char list \<Rightarrow> nat" where
  "first_mismatch xs ys = length (takeWhile (\<lambda>(x, y). x = y) (zip xs ys))"

text \<open>The states written to the variable \<^verbatim>\<open>state\<close>, in order.\<close>

fun state_writes :: "event list \<Rightarrow> State list" where
  "state_writes [] = []"
| "state_writes (StateSet st # es) = st # state_writes es"
| "state_writes (e # es) = state_writes es"

text \<open>The numbers printed on the display, in order.\<close>

fun printed_numbers :: "event list \<Rightarrow> ulong list" where
  "printed_numbers [] = []"
| "printed_numbers (LcdPrintNum n # es) = n # printed_numbers es"
| "printed_numbers (e # es) = printed_numbers es"

text \<open>
  The two deadlines of the specification, as the sketch keeps them: a start time plus a
  fixed duration.
\<close>

definition entry_deadline :: "machine \<Rightarrow> ulong" where
  "entry_deadline s = entryStartMs s + IDLE_TIMEOUT_MS"

definition lockout_deadline :: "machine \<Rightarrow> ulong" where
  "lockout_deadline s = lockoutStartMs s + LOCKOUT_MS"

definition ceil_div :: "nat \<Rightarrow> nat \<Rightarrow> nat" where
  "ceil_div a b = (a + b - 1) div b"

text \<open>The texts printed on the display, in order.\<close>

fun printed_text :: "event list \<Rightarrow> string list" where
  "printed_text [] = []"
| "printed_text (LcdPrint t # es) = t # printed_text es"
| "printed_text (e # es) = printed_text es"

text \<open>
  The five states of the specification: PROMPT and ENTRY are one state there. \<open>merged\<close>
  forgets the difference, in the state variable and in the record of its writes, and
  \<open>tick5\<close> is a pass of the main loop seen through it.
\<close>

fun merge_state :: "State \<Rightarrow> State" where
  "merge_state PROMPT = ENTRY"
| "merge_state st = st"

fun merge_event :: "event \<Rightarrow> event" where
  "merge_event (StateSet st) = StateSet (merge_state st)"
| "merge_event e = e"

definition merged :: "machine \<Rightarrow> machine" where
  "merged s = s\<lparr>state := merge_state (state s), trace := map merge_event (trace s)\<rparr>"

definition tick5 :: "input \<Rightarrow> machine \<Rightarrow> machine" where
  "tick5 i a = merged (tick i a)"

section \<open>Basic facts about the helpers\<close>

lemmas config_defs =
  PIN_LED_RED_def PIN_LED_GRN_def PIN_BUZZER_def PASSWORD_def PASS_LEN_def
  IDLE_TIMEOUT_MS_def LOCKOUT_MS_def MAX_ATTEMPTS_def
  SERVO1_CLOSED_def SERVO1_OPEN_def SERVO2_CLOSED_def SERVO2_OPEN_def
  SERVO_STEP_DELAY_MS_def

lemmas prim_defs =
  emit_def millis_def delay_def digitalWrite_def tone_def noTone_def servo_write_def
  setState_def

declare beepLockout_loop.simps [simp del]
declare printMaskedProgress_loop.simps [simp del]
declare isPasswordCorrect_loop.simps [simp del]
declare moveServoSmooth_loop.simps [simp del]

lemma lcdHeader_eq:
  "lcdHeader l1 l2 s = s\<lparr>trace := trace s @ lcdHeader_events l1 l2\<rparr>"
  by (simp add: lcdHeader_def lcdHeader_events_def prim_defs)

lemma ledsOff_eq:
  "ledsOff s = s\<lparr>ledRed := False, ledGrn := False, trace := trace s @ ledsOff_events\<rparr>"
  by (simp add: ledsOff_def ledsOff_events_def prim_defs config_defs)

lemma ledGranted_eq:
  "ledGranted s = s\<lparr>ledRed := False, ledGrn := True, trace := trace s @ ledGranted_events\<rparr>"
  by (simp add: ledGranted_def ledGranted_events_def prim_defs config_defs)

lemma ledDenied_eq:
  "ledDenied s = s\<lparr>ledGrn := False, ledRed := True, trace := trace s @ ledDenied_events\<rparr>"
  by (simp add: ledDenied_def ledDenied_events_def prim_defs config_defs)

lemma beepSuccess_eq:
  "beepSuccess s = s\<lparr>clock := clock s + 370, trace := trace s @ beepSuccess_events\<rparr>"
  by (simp add: beepSuccess_def beepSuccess_events_def prim_defs config_defs)

lemma beepError_eq:
  "beepError s = s\<lparr>clock := clock s + 350, trace := trace s @ beepError_events\<rparr>"
  by (simp add: beepError_def beepError_events_def prim_defs config_defs)

lemma beepLockout_eq:
  "beepLockout s = s\<lparr>clock := clock s + 900, trace := trace s @ beepLockout_events\<rparr>"
  by (simp add: beepLockout_def beepLockout_loop.simps beepLockout_events_def prim_defs
      config_defs)

lemma printMaskedProgress_loop_eq:
  "printMaskedProgress_loop i s =
     s\<lparr>trace := trace s @
        map (\<lambda>j. LcdPrintChar (if j < inputIndex s then CHR ''*'' else CHR '' '')) [i..7]\<rparr>"
proof (induction i s rule: printMaskedProgress_loop.induct)
  case (1 i s)
  show ?case
  proof (cases "i < PASS_LEN")
    case True
    then have upto: "[i..7] = i # [i + 1..7]"
      by (simp add: PASS_LEN_def upto_rec1)
    have "printMaskedProgress_loop i s =
        printMaskedProgress_loop (i + 1)
          (emit (LcdPrintChar (if i < inputIndex s then CHR ''*'' else CHR '' '')) s)"
      using True by (subst printMaskedProgress_loop.simps) simp
    also note "1.IH" [OF True]
    finally show ?thesis
      by (simp add: emit_def upto)
  next
    case False
    then show ?thesis
      by (subst printMaskedProgress_loop.simps) (simp add: PASS_LEN_def)
  qed
qed

lemma printMaskedProgress_eq:
  "printMaskedProgress s = s\<lparr>trace := trace s @ masked_events (inputIndex s)\<rparr>"
  by (simp add: printMaskedProgress_def printMaskedProgress_loop_eq masked_events_def emit_def)

subsection \<open>The door\<close>

lemma sweep_positions_step:
  assumes "pos \<noteq> toDeg"
  shows "sweep_positions pos toDeg =
     pos # sweep_positions (pos + (if toDeg > pos then 1 else - 1)) toDeg"
proof (cases "pos < toDeg")
  case True
  then show ?thesis
    by (simp add: sweep_positions_def upto_rec1 [of pos])
next
  case False
  with assms have gt: "toDeg < pos" by simp
  then have "[toDeg + 1..pos] = [toDeg + 1..pos - 1] @ [pos]"
    by (simp add: upto_rec2)
  with gt show ?thesis
    by (simp add: sweep_positions_def)
qed

lemma sweep_positions_same [simp]: "sweep_positions p p = []"
  by (simp add: sweep_positions_def)

lemma moveServoSmooth_loop_eq:
  "moveServoSmooth_loop sv pos toDeg s =
     (if pos = toDeg then s
      else set_servo sv (toDeg - (if toDeg > pos then 1 else - 1))
         (s\<lparr>clock := clock s + word_of_int (10 * \<bar>toDeg - pos\<bar>),
            trace := trace s @ step_events sv (sweep_positions pos toDeg)\<rparr>))"
proof (induction sv pos toDeg s rule: moveServoSmooth_loop.induct)
  case (1 sv pos toDeg s)
  show ?case
  proof (cases "pos = toDeg")
    case True
    then show ?thesis by (subst moveServoSmooth_loop.simps) simp
  next
    case False
    show ?thesis
      apply (subst moveServoSmooth_loop.simps)
      apply (subst "1.IH" [OF False])
      using False
      apply (cases sv)
       apply (auto simp: sweep_positions_step [OF False] step_events_def set_servo_def
          prim_defs config_defs algebra_simps)
      done
  qed
qed

lemma moveServoSmooth_eq:
  "moveServoSmooth sv fromDeg toDeg s =
     (if fromDeg = toDeg then s
      else set_servo sv toDeg
         (s\<lparr>clock := clock s + word_of_int (10 * \<bar>toDeg - fromDeg\<bar>),
            trace := trace s @ sweep_events sv fromDeg toDeg\<rparr>))"
  by (cases sv)
    (simp_all add: moveServoSmooth_def moveServoSmooth_loop_eq set_servo_def prim_defs
      sweep_events_def)

lemma openDoor_eq:
  "openDoor s = s\<lparr>servo1 := 90, servo2 := 90, clock := clock s + 1800,
     trace := trace s @ openDoor_events\<rparr>"
  by (simp add: openDoor_def moveServoSmooth_eq set_servo_def config_defs openDoor_events_def)

lemma closeDoor_eq:
  "closeDoor s = s\<lparr>servo1 := 0, servo2 := 180, clock := clock s + 1800,
     trace := trace s @ closeDoor_events\<rparr>"
  by (simp add: closeDoor_def moveServoSmooth_eq set_servo_def config_defs closeDoor_events_def)

subsection \<open>The transitions in closed form\<close>

lemma resetEntry_eq:
  "resetEntry s = s\<lparr>inputIndex := 0, inputBuffer := (inputBuffer s)[0 := CHR 0x00],
     entryStartMs := clock s\<rparr>"
  by (simp add: resetEntry_def millis_def)

lemma goIdle_eq:
  "goIdle s = s\<lparr>ledRed := False, ledGrn := False, servo1 := 0, servo2 := 180,
     clock := clock s + 1800, inputIndex := 0,
     inputBuffer := (inputBuffer s)[0 := CHR 0x00], entryStartMs := clock s + 1800,
     state := IDLE, trace := trace s @ goIdle_events\<rparr>"
  by (simp add: goIdle_def ledsOff_eq closeDoor_eq resetEntry_eq setState_def emit_def
      lcdHeader_eq goIdle_events_def)

lemma goPrompt_eq:
  "goPrompt s = s\<lparr>ledRed := False, ledGrn := False, inputIndex := 0,
     inputBuffer := (inputBuffer s)[0 := CHR 0x00], entryStartMs := clock s,
     state := PROMPT, trace := trace s @ goPrompt_events\<rparr>"
  by (simp add: goPrompt_def ledsOff_eq resetEntry_eq setState_def emit_def lcdHeader_eq
      printMaskedProgress_eq goPrompt_events_def)

lemma goGranted_eq:
  "goGranted s = s\<lparr>ledRed := False, ledGrn := False, servo1 := 0, servo2 := 180,
     clock := clock s + 10270, inputIndex := 0,
     inputBuffer := (inputBuffer s)[0 := CHR 0x00], entryStartMs := clock s + 10270,
     state := IDLE, trace := trace s @ goGranted_events\<rparr>"
  by (simp add: goGranted_def goIdle_eq ledGranted_eq closeDoor_eq openDoor_eq beepSuccess_eq
      setState_def emit_def delay_def lcdHeader_eq goGranted_events_def)

lemma goDenied_eq:
  "goDenied s =
     (if failedAttempts s + 1 \<ge> MAX_ATTEMPTS
      then s\<lparr>state := LOCKED, ledGrn := False, ledRed := True,
             failedAttempts := failedAttempts s + 1, clock := clock s + 2750,
             lockoutStartMs := clock s + 1850,
             trace := trace s @ denied_events @ lockout_events\<rparr>
      else s\<lparr>ledRed := False, ledGrn := False, failedAttempts := failedAttempts s + 1,
             clock := clock s + 1850, inputIndex := 0,
             inputBuffer := (inputBuffer s)[0 := CHR 0x00],
             entryStartMs := clock s + 1850, state := PROMPT,
             trace := trace s @ denied_events @ goPrompt_events\<rparr>)"
  by (simp add: goDenied_def goPrompt_eq ledDenied_eq beepError_eq beepLockout_eq
      setState_def emit_def delay_def millis_def lcdHeader_eq denied_events_def
      lockout_events_def Let_def)

lemma setup_sketch_eq:
  "setup_sketch s = s\<lparr>ledRed := False, ledGrn := False, servo1 := 0, servo2 := 180,
     clock := clock s + 1800, inputIndex := 0,
     inputBuffer := (inputBuffer s)[0 := CHR 0x00], entryStartMs := clock s + 1800,
     state := IDLE,
     trace := trace s @ ledsOff_events @ [NoTone 5, ServoWrite Servo1 0, ServoWrite Servo2 180]
        @ goIdle_events\<rparr>"
  by (simp add: setup_sketch_def goIdle_eq ledsOff_eq prim_defs config_defs)

subsection \<open>The password comparison\<close>

lemma isPasswordCorrect_run_unfold:
  "isPasswordCorrect_run s =
     (let b = inputBuffer s in
      if b ! 0 \<noteq> CHR ''1'' then (False, 1)
      else if b ! 1 \<noteq> CHR ''2'' then (False, 2)
      else if b ! 2 \<noteq> CHR ''3'' then (False, 3)
      else if b ! 3 \<noteq> CHR ''4'' then (False, 4)
      else if b ! 4 \<noteq> CHR ''5'' then (False, 5)
      else if b ! 5 \<noteq> CHR ''6'' then (False, 6)
      else if b ! 6 \<noteq> CHR ''7'' then (False, 7)
      else if b ! 7 \<noteq> CHR ''8'' then (False, 8)
      else (True, 8))"
  by (simp add: isPasswordCorrect_run_def isPasswordCorrect_loop.simps config_defs)

lemma all_less_8: "(\<forall>j<8::nat. P j) \<longleftrightarrow> P 0 \<and> P 1 \<and> P 2 \<and> P 3 \<and> P 4 \<and> P 5 \<and> P 6 \<and> P 7"
proof -
  have "(\<forall>j<8::nat. P j) \<longleftrightarrow> (\<forall>j<Suc (Suc (Suc (Suc (Suc (Suc (Suc (Suc 0))))))). P j)"
    by (simp add: eval_nat_numeral)
  also have "\<dots> \<longleftrightarrow> P 0 \<and> P 1 \<and> P 2 \<and> P 3 \<and> P 4 \<and> P 5 \<and> P 6 \<and> P 7"
    by (simp only: All_less_Suc) (auto simp: eval_nat_numeral)
  finally show ?thesis .
qed

lemma isPasswordCorrect_iff:
  "isPasswordCorrect s \<longleftrightarrow> (\<forall>j<8. inputBuffer s ! j = PASSWORD ! j)"
  by (simp add: isPasswordCorrect_def isPasswordCorrect_run_unfold all_less_8 PASSWORD_def
      Let_def)

lemma isPasswordCorrect_buffer:
  "inputBuffer s = inputBuffer s' \<Longrightarrow> isPasswordCorrect s = isPasswordCorrect s'"
  by (simp add: isPasswordCorrect_iff)

subsection \<open>One pass of the main loop, case by case\<close>

lemmas go_eqs = goIdle_eq goPrompt_eq goGranted_eq goDenied_eq

lemmas handler_defs = tick_def loop_def handleKeypad_def handleTimeout_def handleLockout_def

lemmas step_simps =
  handler_defs go_eqs lcdHeader_eq printMaskedProgress_eq prim_defs Let_def

lemma tick_locked_wait:
  assumes "state s = LOCKED"
    and "\<not> LOCKOUT_MS \<le> clock s + in_elapsed i - lockoutStartMs s"
  shows "tick i s = s\<lparr>clock := clock s + in_elapsed i,
     trace := trace s @
       [LcdSetCursor 0 1, LcdPrint ''Wait '',
        LcdPrintNum ((LOCKOUT_MS - (clock s + in_elapsed i - lockoutStartMs s)) div 1000),
        LcdPrint '' sec   '']\<rparr>"
  using assms by (simp add: step_simps)

lemma tick_locked_expired:
  assumes "state s = LOCKED"
    and "LOCKOUT_MS \<le> clock s + in_elapsed i - lockoutStartMs s"
  shows "tick i s = s\<lparr>failedAttempts := 0, ledRed := False, ledGrn := False,
     servo1 := 0, servo2 := 180, clock := clock s + in_elapsed i + 2600, inputIndex := 0,
     inputBuffer := (inputBuffer s)[0 := CHR 0x00],
     entryStartMs := clock s + in_elapsed i + 2600, state := IDLE,
     trace := trace s @ lcdHeader_events ''Unlocked'' ''Try again'' @ [Delay 800] @
       goIdle_events\<rparr>"
  using assms by (simp add: step_simps)

lemma tick_idle_quiet:
  assumes "state s = IDLE" and "\<not> in_motion i"
  shows "tick i s = s\<lparr>clock := clock s + in_elapsed i\<rparr>"
  using assms by (simp add: step_simps)

lemma tick_idle_motion:
  assumes "state s = IDLE" and "in_motion i"
  shows "tick i s = s\<lparr>ledRed := False, ledGrn := False,
     clock := clock s + in_elapsed i + 700, inputIndex := 0,
     inputBuffer := (inputBuffer s)[0 := CHR 0x00],
     entryStartMs := clock s + in_elapsed i + 700, state := ENTRY,
     trace := trace s @ lcdHeader_events ''Motion Detected'' ''Authenticating'' @
       [Delay 700] @ goPrompt_events @ [StateSet ENTRY]\<rparr>"
  using assms by (simp add: step_simps)

lemma tick_transient:
  assumes "state s = GRANTED \<or> state s = DENIED"
  shows "tick i s = s\<lparr>clock := clock s + in_elapsed i\<rparr>"
  using assms by (elim disjE) (simp_all add: step_simps)

lemma tick_no_key_quiet:
  assumes "in_entry s" and "in_key i = CHR 0x00"
    and "\<not> IDLE_TIMEOUT_MS < clock s + in_elapsed i - entryStartMs s"
  shows "tick i s = s\<lparr>clock := clock s + in_elapsed i\<rparr>"
  using assms unfolding in_entry_def
  by (elim disjE) (simp_all add: step_simps)

lemma tick_no_key_timeout:
  assumes "in_entry s" and "in_key i = CHR 0x00"
    and "IDLE_TIMEOUT_MS < clock s + in_elapsed i - entryStartMs s"
  shows "tick i s = s\<lparr>ledRed := False, ledGrn := False, servo1 := 0, servo2 := 180,
     clock := clock s + in_elapsed i + 2600, inputIndex := 0,
     inputBuffer := (inputBuffer s)[0 := CHR 0x00],
     entryStartMs := clock s + in_elapsed i + 2600, state := IDLE,
     trace := trace s @ lcdHeader_events ''Timeout'' ''Returning...'' @ [Delay 800] @
       goIdle_events\<rparr>"
  using assms unfolding in_entry_def
  by (elim disjE) (simp_all add: step_simps)

lemma tick_cancel:
  assumes "in_entry s" and "in_key i = CHR ''*''"
  shows "tick i s = s\<lparr>ledRed := False, ledGrn := False, servo1 := 0, servo2 := 180,
     clock := clock s + in_elapsed i + 2600, inputIndex := 0,
     inputBuffer := (inputBuffer s)[0 := CHR 0x00],
     entryStartMs := clock s + in_elapsed i + 2600, state := IDLE,
     trace := trace s @ lcdHeader_events ''Cancelled'' ''Returning...'' @ [Delay 800] @
       goIdle_events\<rparr>"
  using assms unfolding in_entry_def
  by (elim disjE) (simp_all add: step_simps)

lemma tick_submit_short:
  assumes "in_entry s" and "in_key i = CHR ''#''" and "inputIndex s < PASS_LEN"
  shows "tick i s = s\<lparr>clock := clock s + in_elapsed i + 1000,
     entryStartMs := clock s + in_elapsed i,
     trace := trace s @ lcdHeader_events ''Password short'' ''Enter 8 chars'' @
       [Delay 1000] @ lcdHeader_events ''Enter Password:'' '''' @
       masked_events (inputIndex s)\<rparr>"
  using assms unfolding in_entry_def
  by (elim disjE) (simp_all add: step_simps IDLE_TIMEOUT_MS_def)

lemma tick_submit_granted:
  assumes "in_entry s" and "in_key i = CHR ''#''" and "\<not> inputIndex s < PASS_LEN"
    and "isPasswordCorrect s"
  shows "tick i s = s\<lparr>failedAttempts := 0, ledRed := False, ledGrn := False,
     servo1 := 0, servo2 := 180, clock := clock s + in_elapsed i + 10270, inputIndex := 0,
     inputBuffer := (inputBuffer s)[0 := CHR 0x00],
     entryStartMs := clock s + in_elapsed i + 10270, state := IDLE,
     trace := trace s @ goGranted_events\<rparr>"
proof -
  have "isPasswordCorrect (s\<lparr>clock := clock s + in_elapsed i,
      entryStartMs := clock s + in_elapsed i\<rparr>)"
    using assms(4) by (simp add: isPasswordCorrect_iff)
  with assms(1-3) show ?thesis unfolding in_entry_def
    by (elim disjE) (simp_all add: step_simps)
qed

lemma tick_submit_denied_retry:
  assumes "in_entry s" and "in_key i = CHR ''#''" and "\<not> inputIndex s < PASS_LEN"
    and "\<not> isPasswordCorrect s" and "\<not> MAX_ATTEMPTS \<le> failedAttempts s + 1"
  shows "tick i s = s\<lparr>ledRed := False, ledGrn := False,
     failedAttempts := failedAttempts s + 1, clock := clock s + in_elapsed i + 1850,
     inputIndex := 0, inputBuffer := (inputBuffer s)[0 := CHR 0x00],
     entryStartMs := clock s + in_elapsed i + 1850, state := PROMPT,
     trace := trace s @ denied_events @ goPrompt_events\<rparr>"
proof -
  have "\<not> isPasswordCorrect (s\<lparr>clock := clock s + in_elapsed i,
      entryStartMs := clock s + in_elapsed i\<rparr>)"
    using assms(4) by (simp add: isPasswordCorrect_iff)
  with assms(1-3,5) show ?thesis unfolding in_entry_def
    by (elim disjE) (simp_all add: step_simps IDLE_TIMEOUT_MS_def)
qed

lemma tick_submit_denied_locked:
  assumes "in_entry s" and "in_key i = CHR ''#''" and "\<not> inputIndex s < PASS_LEN"
    and "\<not> isPasswordCorrect s" and "MAX_ATTEMPTS \<le> failedAttempts s + 1"
  shows "tick i s = s\<lparr>state := LOCKED, ledGrn := False, ledRed := True,
     failedAttempts := failedAttempts s + 1, clock := clock s + in_elapsed i + 2750,
     entryStartMs := clock s + in_elapsed i,
     lockoutStartMs := clock s + in_elapsed i + 1850,
     trace := trace s @ denied_events @ lockout_events\<rparr>"
proof -
  have "\<not> isPasswordCorrect (s\<lparr>clock := clock s + in_elapsed i,
      entryStartMs := clock s + in_elapsed i\<rparr>)"
    using assms(4) by (simp add: isPasswordCorrect_iff)
  with assms(1-3,5) show ?thesis unfolding in_entry_def
    by (elim disjE) (simp_all add: step_simps)
qed

lemma tick_key_accepted:
  assumes "in_entry s" and "in_key i \<noteq> CHR 0x00" and "\<not> control_key (in_key i)"
    and "inputIndex s < PASS_LEN"
  shows "tick i s = s\<lparr>clock := clock s + in_elapsed i,
     entryStartMs := clock s + in_elapsed i,
     inputBuffer :=
       (if inputIndex s + 1 = PASS_LEN
        then (inputBuffer s)[nat (inputIndex s) := in_key i, nat PASS_LEN := CHR 0x00]
        else (inputBuffer s)[nat (inputIndex s) := in_key i]),
     inputIndex := inputIndex s + 1,
     trace := trace s @ masked_events (inputIndex s + 1)\<rparr>"
  using assms unfolding in_entry_def
  by (elim disjE) (simp_all add: step_simps control_key_def IDLE_TIMEOUT_MS_def)

lemma tick_key_rejected:
  assumes "in_entry s" and "in_key i \<noteq> CHR 0x00" and "\<not> control_key (in_key i)"
    and "\<not> inputIndex s < PASS_LEN"
  shows "tick i s = s\<lparr>clock := clock s + in_elapsed i,
     entryStartMs := clock s + in_elapsed i,
     trace := trace s @ [Tone 5 600 50]\<rparr>"
  using assms unfolding in_entry_def
  by (elim disjE) (simp_all add: step_simps control_key_def IDLE_TIMEOUT_MS_def PIN_BUZZER_def)

lemmas tick_eqs =
  tick_locked_wait tick_locked_expired tick_idle_quiet tick_idle_motion tick_transient
  tick_no_key_quiet tick_no_key_timeout tick_cancel tick_submit_short tick_submit_granted
  tick_submit_denied_retry tick_submit_denied_locked tick_key_accepted tick_key_rejected

text \<open>The fourteen ways a pass of the main loop can go.\<close>

lemma tick_cases [case_names locked_wait locked_expired idle_quiet idle_motion transient
    no_key_quiet no_key_timeout cancel submit_short submit_granted submit_denied_retry
    submit_denied_locked key_accepted key_rejected]:
  assumes "\<lbrakk>state s = LOCKED; \<not> LOCKOUT_MS \<le> clock s + in_elapsed i - lockoutStartMs s\<rbrakk> \<Longrightarrow> P"
    and "\<lbrakk>state s = LOCKED; LOCKOUT_MS \<le> clock s + in_elapsed i - lockoutStartMs s\<rbrakk> \<Longrightarrow> P"
    and "\<lbrakk>state s = IDLE; \<not> in_motion i\<rbrakk> \<Longrightarrow> P"
    and "\<lbrakk>state s = IDLE; in_motion i\<rbrakk> \<Longrightarrow> P"
    and "state s = GRANTED \<or> state s = DENIED \<Longrightarrow> P"
    and "\<lbrakk>in_entry s; in_key i = CHR 0x00;
          \<not> IDLE_TIMEOUT_MS < clock s + in_elapsed i - entryStartMs s\<rbrakk> \<Longrightarrow> P"
    and "\<lbrakk>in_entry s; in_key i = CHR 0x00;
          IDLE_TIMEOUT_MS < clock s + in_elapsed i - entryStartMs s\<rbrakk> \<Longrightarrow> P"
    and "\<lbrakk>in_entry s; in_key i = CHR ''*''\<rbrakk> \<Longrightarrow> P"
    and "\<lbrakk>in_entry s; in_key i = CHR ''#''; inputIndex s < PASS_LEN\<rbrakk> \<Longrightarrow> P"
    and "\<lbrakk>in_entry s; in_key i = CHR ''#''; \<not> inputIndex s < PASS_LEN;
          isPasswordCorrect s\<rbrakk> \<Longrightarrow> P"
    and "\<lbrakk>in_entry s; in_key i = CHR ''#''; \<not> inputIndex s < PASS_LEN;
          \<not> isPasswordCorrect s; \<not> MAX_ATTEMPTS \<le> failedAttempts s + 1\<rbrakk> \<Longrightarrow> P"
    and "\<lbrakk>in_entry s; in_key i = CHR ''#''; \<not> inputIndex s < PASS_LEN;
          \<not> isPasswordCorrect s; MAX_ATTEMPTS \<le> failedAttempts s + 1\<rbrakk> \<Longrightarrow> P"
    and "\<lbrakk>in_entry s; in_key i \<noteq> CHR 0x00; \<not> control_key (in_key i);
          inputIndex s < PASS_LEN\<rbrakk> \<Longrightarrow> P"
    and "\<lbrakk>in_entry s; in_key i \<noteq> CHR 0x00; \<not> control_key (in_key i);
          \<not> inputIndex s < PASS_LEN\<rbrakk> \<Longrightarrow> P"
  shows P
proof (cases "in_entry s")
  case False
  then have "state s = LOCKED \<or> state s = IDLE \<or> state s = GRANTED \<or> state s = DENIED"
    by (cases "state s") (simp_all add: in_entry_def)
  with assms(1-5) show ?thesis by blast
next
  case True
  show ?thesis
  proof (cases "in_key i = CHR 0x00")
    case True
    with \<open>in_entry s\<close> assms(6,7) show ?thesis by blast
  next
    case no_zero: False
    show ?thesis
    proof (cases "control_key (in_key i)")
      case False
      with \<open>in_entry s\<close> no_zero assms(13,14) show ?thesis by blast
    next
      case True
      then have "in_key i = CHR ''*'' \<or> in_key i = CHR ''#''"
        by (simp add: control_key_def)
      with \<open>in_entry s\<close> assms(8-12) show ?thesis by blast
    qed
  qed
qed

subsection \<open>The invariant of the reachable states\<close>

lemma lock_inv_start: "lock_inv (setup_sketch (power_on a1 a2))"
  by (simp add: lock_inv_def setup_sketch_eq power_on_def config_defs)

lemma lock_inv_tick:
  assumes "lock_inv s"
  shows "lock_inv (tick i s)"
  using assms
  by (cases rule: tick_cases [of s i])
    (auto simp: tick_eqs lock_inv_def in_entry_def config_defs nth_list_update)

lemma reachable_lock_inv: "reachable s \<Longrightarrow> lock_inv s"
  by (induction rule: reachable.induct) (simp_all add: lock_inv_start lock_inv_tick)

lemma reachable_run: "reachable s \<Longrightarrow> reachable (run is s)"
  by (induction "is" arbitrary: s) (simp_all add: reachable.step)

subsection \<open>The concrete sessions, evaluated\<close>

lemmas session_simps =
  press_def motion_seen_def nothing_for_def typed_def control_key_def in_entry_def config_defs

lemma booted_eq:
  "booted =
     \<lparr>state = IDLE,
      inputBuffer = [CHR 0x00, CHR 0x00, CHR 0x00, CHR 0x00, CHR 0x00, CHR 0x00, CHR 0x00,
        CHR 0x00, CHR 0x00],
      inputIndex = 0, failedAttempts = 0, entryStartMs = 1800, lockoutStartMs = 0,
      clock = 1800, ledRed = False, ledGrn = False, servo1 = 0, servo2 = 180,
      trace = ledsOff_events @ [NoTone 5, ServoWrite Servo1 0, ServoWrite Servo2 180] @
        goIdle_events\<rparr>"
  by (simp add: booted_def setup_sketch_eq power_on_def PASS_LEN_def eval_nat_numeral)

lemma reachable_booted: "reachable booted"
  unfolding booted_def by (rule reachable.start)

lemma reachable_typed: "reachable s \<Longrightarrow> reachable (typed code s)"
  unfolding typed_def by (rule reachable_run)

lemma reachable_session_right: "reachable session_right"
  unfolding session_right_def
  by (intro reachable_typed reachable.step reachable_booted)

lemma reachable_session_short: "reachable session_short"
  unfolding session_short_def
  by (intro reachable_typed reachable.step reachable_booted)

lemma reachable_session_wrong: "reachable session_wrong"
  unfolding session_wrong_def
  by (intro reachable_typed reachable.step reachable_booted)

lemma reachable_session_locked: "reachable session_locked"
  unfolding session_locked_def
  by (intro reachable_typed reachable.step reachable_session_wrong)

lemma session_right_facts:
  "state session_right = ENTRY" "inputIndex session_right = 8"
  "inputBuffer session_right = ''12345678'' @ [CHR 0x00]"
  "failedAttempts session_right = 0" "clock session_right = 3400"
  "entryStartMs session_right = 3400"
  by (simp_all add: session_right_def booted_eq tick_eqs session_simps)

lemma session_short_facts:
  "state session_short = ENTRY" "inputIndex session_short = 4"
  "inputBuffer session_short = ''1234'' @ [CHR 0x00, CHR 0x00, CHR 0x00, CHR 0x00, CHR 0x00]"
  "failedAttempts session_short = 0" "clock session_short = 3000"
  "entryStartMs session_short = 3000"
  by (simp_all add: session_short_def booted_eq tick_eqs session_simps)

lemma session_wrong_facts:
  "state session_wrong = ENTRY" "inputIndex session_wrong = 8"
  "inputBuffer session_wrong = ''87654321'' @ [CHR 0x00]"
  "failedAttempts session_wrong = 0" "clock session_wrong = 3400"
  "entryStartMs session_wrong = 3400"
  by (simp_all add: session_wrong_def booted_eq tick_eqs session_simps)

lemma session_locked_facts:
  "state session_locked = LOCKED" "inputIndex session_locked = 8"
  "inputBuffer session_locked = ''87654321'' @ [CHR 0x00]"
  "failedAttempts session_locked = 3" "clock session_locked = 11750"
  "lockoutStartMs session_locked = 10850"
  by (simp_all add: session_locked_def session_wrong_def booted_eq tick_eqs session_simps
      isPasswordCorrect_iff all_less_8)

subsection \<open>Reading the trace\<close>

lemma state_writes_append [simp]:
  "state_writes (xs @ ys) = state_writes xs @ state_writes ys"
  by (induction xs rule: state_writes.induct) simp_all

lemma state_writes_step_events [simp]: "state_writes (step_events sv ps) = []"
  by (induction ps) (simp_all add: step_events_def)

lemma state_writes_sweep_events [simp]: "state_writes (sweep_events sv a b) = []"
  by (simp add: sweep_events_def)

lemma state_writes_simps [simp]:
  "state_writes (lcdHeader_events l1 l2) = []"
  "state_writes (masked_events n) = []"
  "state_writes ledsOff_events = []"
  "state_writes ledGranted_events = []"
  "state_writes ledDenied_events = []"
  "state_writes beepSuccess_events = []"
  "state_writes beepError_events = []"
  "state_writes beepLockout_events = []"
  "state_writes openDoor_events = []"
  "state_writes closeDoor_events = []"
  by (simp_all add: lcdHeader_events_def masked_events_def ledsOff_events_def
      ledGranted_events_def ledDenied_events_def beepSuccess_events_def beepError_events_def
      beepLockout_events_def openDoor_events_def closeDoor_events_def upto_rec1)

lemma state_writes_transitions [simp]:
  "state_writes goIdle_events = [IDLE]"
  "state_writes goPrompt_events = [PROMPT]"
  "state_writes goGranted_events = [GRANTED, IDLE]"
  "state_writes denied_events = [DENIED]"
  "state_writes lockout_events = [LOCKED]"
  by (simp_all add: goIdle_events_def goPrompt_events_def goGranted_events_def
      denied_events_def lockout_events_def)

lemma new_events_append [simp]:
  "trace s' = trace s @ es \<Longrightarrow> new_events s s' = es"
  by (simp add: new_events_def)

lemma printed_text_append [simp]:
  "printed_text (xs @ ys) = printed_text xs @ printed_text ys"
  by (induction xs rule: printed_text.induct) simp_all

lemma printed_text_step_events [simp]: "printed_text (step_events sv ps) = []"
  by (induction ps) (simp_all add: step_events_def)

lemma printed_text_sweep_events [simp]: "printed_text (sweep_events sv a b) = []"
  by (simp add: sweep_events_def)

lemma printed_text_simps [simp]:
  "printed_text (lcdHeader_events l1 l2) = [l1, l2]"
  "printed_text (masked_events n) = []"
  "printed_text ledsOff_events = []"
  "printed_text ledGranted_events = []"
  "printed_text ledDenied_events = []"
  "printed_text beepSuccess_events = []"
  "printed_text beepError_events = []"
  "printed_text beepLockout_events = []"
  "printed_text openDoor_events = []"
  "printed_text closeDoor_events = []"
  by (simp_all add: lcdHeader_events_def masked_events_def ledsOff_events_def
      ledGranted_events_def ledDenied_events_def beepSuccess_events_def beepError_events_def
      beepLockout_events_def openDoor_events_def closeDoor_events_def upto_rec1)

lemma printed_text_transitions [simp]:
  "printed_text goIdle_events = [''System Idle'', ''Waiting motion'']"
  "printed_text goPrompt_events = [''Enter Password:'', '''']"
  "printed_text goGranted_events =
     [''Access Granted'', ''Opening...'', ''Door Open'', ''Closing soon'', ''System Idle'',
      ''Waiting motion'']"
  "printed_text denied_events = [''Access Denied'', ''Try again'']"
  "printed_text lockout_events = [''LOCKED OUT'', ''Wait 15 sec'']"
  by (simp_all add: goIdle_events_def goPrompt_events_def goGranted_events_def
      denied_events_def lockout_events_def)

section \<open>A correct code opens the door (C1)\<close>

lemma buffer_is_secret:
  assumes "inputIndex s = PASS_LEN" and "buffer_text s = secret"
  shows "isPasswordCorrect s"
proof -
  from assms have t: "take 8 (inputBuffer s) = ''12345678''"
    by (simp add: buffer_text_def secret_def config_defs)
  have "inputBuffer s ! j = ''12345678'' ! j" if "j < 8" for j
    using that nth_take [of j 8 "inputBuffer s"] by (simp add: t)
  then show ?thesis
    by (simp add: isPasswordCorrect_iff all_less_8 PASSWORD_def)
qed

text \<open>
  C1: when the buffer holds \<open>N\<close> characters that are the secret, the pass that receives
  the submit key writes GRANTED and then IDLE to the state, leaves the attempt counter at 0,
  and performs, in this order: LED granted, the success tones, the opening sweep, a hold of
  twice two seconds, the closing sweep, half a second of rest, and the return to idle, which
  switches the LEDs off. The machine is idle and the door closed when the pass returns.
\<close>

theorem submit_right_code_grants:
  assumes "in_entry s" and "inputIndex s = PASS_LEN" and "buffer_text s = secret"
    and "in_key i = CHR ''#''"
  shows "state_writes (new_events s (tick i s)) = [GRANTED, IDLE] \<and>
    failedAttempts (tick i s) = 0 \<and>
    new_events s (tick i s) =
      [StateSet GRANTED] @ ledGranted_events @
      lcdHeader_events ''Access Granted'' ''Opening...'' @ beepSuccess_events @
      openDoor_events @ [Delay 2000] @ lcdHeader_events ''Door Open'' ''Closing soon'' @
      [Delay 2000] @ closeDoor_events @ [Delay 500] @
      ledsOff_events @ closeDoor_events @ [StateSet IDLE] @
      lcdHeader_events ''System Idle'' ''Waiting motion'' \<and>
    state (tick i s) = IDLE \<and>
    servo1 (tick i s) = SERVO1_CLOSED \<and> servo2 (tick i s) = SERVO2_CLOSED \<and>
    \<not> ledRed (tick i s) \<and> \<not> ledGrn (tick i s)"
proof -
  have "isPasswordCorrect s"
    using assms(2,3) by (rule buffer_is_secret)
  with assms have "tick i s = s\<lparr>failedAttempts := 0, ledRed := False, ledGrn := False,
     servo1 := 0, servo2 := 180, clock := clock s + in_elapsed i + 10270, inputIndex := 0,
     inputBuffer := (inputBuffer s)[0 := CHR 0x00],
     entryStartMs := clock s + in_elapsed i + 10270, state := IDLE,
     trace := trace s @ goGranted_events\<rparr>"
    by (intro tick_submit_granted) simp_all
  then show ?thesis
    by (simp add: goGranted_events_def goIdle_events_def config_defs)
qed

theorem submit_right_code_grants_witness:
  "in_entry session_right \<and> inputIndex session_right = PASS_LEN \<and>
   buffer_text session_right = secret \<and>
   state_writes (new_events session_right (tick (press CHR ''#'') session_right)) =
     [GRANTED, IDLE] \<and>
   failedAttempts (tick (press CHR ''#'') session_right) = 0 \<and>
   state (tick (press CHR ''#'') session_right) = IDLE"
  using submit_right_code_grants [of session_right "press CHR ''#''"]
  by (simp add: session_right_facts in_entry_def buffer_text_def secret_def config_defs
      press_def)

section \<open>The attempt counter (C2)\<close>

text \<open>
  C2: between passes the attempt counter lies in \<open>[0, MAX_ATTEMPTS]\<close> and is at
  \<open>MAX_ATTEMPTS\<close> exactly while the machine is LOCKED. The pass in which it reaches
  \<open>MAX_ATTEMPTS\<close> is a denial that writes DENIED and then LOCKED, once, and ends in
  LOCKED; a pass that starts in LOCKED never writes LOCKED again. The counter is 0 after a
  pass that goes through GRANTED and after the pass that leaves LOCKED for IDLE; any other
  pass leaves it as it was or, on a denial, adds one.
\<close>

theorem attempt_counter_discipline:
  assumes "reachable s"
  shows "0 \<le> failedAttempts s \<and> failedAttempts s \<le> MAX_ATTEMPTS \<and>
    (failedAttempts s = MAX_ATTEMPTS \<longleftrightarrow> state s = LOCKED) \<and>
    (failedAttempts (tick i s) = MAX_ATTEMPTS \<and> failedAttempts s \<noteq> MAX_ATTEMPTS \<longrightarrow>
       state_writes (new_events s (tick i s)) = [DENIED, LOCKED] \<and>
       state (tick i s) = LOCKED) \<and>
    (state s = LOCKED \<longrightarrow> LOCKED \<notin> set (state_writes (new_events s (tick i s)))) \<and>
    (GRANTED \<in> set (state_writes (new_events s (tick i s))) \<longrightarrow>
       failedAttempts (tick i s) = 0) \<and>
    (state s = LOCKED \<and> state (tick i s) = IDLE \<longrightarrow> failedAttempts (tick i s) = 0) \<and>
    (GRANTED \<notin> set (state_writes (new_events s (tick i s))) \<and>
     \<not> (state s = LOCKED \<and> state (tick i s) = IDLE) \<longrightarrow>
       failedAttempts (tick i s) = failedAttempts s \<or>
       failedAttempts (tick i s) = failedAttempts s + 1 \<and>
       DENIED \<in> set (state_writes (new_events s (tick i s))))"
proof -
  from assms have "lock_inv s" by (rule reachable_lock_inv)
  then show ?thesis
    by (cases rule: tick_cases [of s i])
      (auto simp: tick_eqs lock_inv_def in_entry_def MAX_ATTEMPTS_def)
qed

theorem attempt_counter_discipline_witness:
  "reachable session_wrong \<and> failedAttempts session_wrong = 0 \<and>
   failedAttempts (tick (press CHR ''#'') session_wrong) = 1 \<and>
   DENIED \<in> set (state_writes (new_events session_wrong (tick (press CHR ''#'') session_wrong)))
   \<and> reachable session_locked \<and> failedAttempts session_locked = MAX_ATTEMPTS \<and>
   state session_locked = LOCKED \<and>
   LOCKED \<notin> set (state_writes
     (new_events session_locked (tick (nothing_for 15000) session_locked))) \<and>
   state (tick (nothing_for 15000) session_locked) = IDLE \<and>
   failedAttempts (tick (nothing_for 15000) session_locked) = 0"
proof -
  have 1: "failedAttempts (tick (press CHR ''#'') session_wrong) = 1"
    by (simp add: tick_submit_denied_retry session_wrong_facts session_simps
        isPasswordCorrect_iff all_less_8)
  have 2: "state (tick (nothing_for 15000) session_locked) = IDLE"
    by (simp add: tick_locked_expired session_locked_facts session_simps)
  show ?thesis
    using attempt_counter_discipline [OF reachable_session_wrong, of "press CHR ''#''"]
      attempt_counter_discipline [OF reachable_session_locked, of "nothing_for 15000"] 1 2
    by (simp add: reachable_session_wrong reachable_session_locked session_wrong_facts
        session_locked_facts MAX_ATTEMPTS_def)
qed

section \<open>Submitting too early (C3)\<close>

text \<open>
  C3: with fewer than \<open>N\<close> characters in the buffer, the pass that receives the submit key
  leaves the attempt counter, the buffer, its length and the state as they were; LEDs and
  door are untouched; all it does is display: the notice that the code is too short, for one
  second, and then the prompt again with the masked progress.
\<close>

theorem short_submit_only_reprompts:
  assumes "in_entry s" and "inputIndex s < PASS_LEN" and "in_key i = CHR ''#''"
  shows "failedAttempts (tick i s) = failedAttempts s \<and>
    inputBuffer (tick i s) = inputBuffer s \<and> inputIndex (tick i s) = inputIndex s \<and>
    buffer_text (tick i s) = buffer_text s \<and>
    state (tick i s) = state s \<and>
    ledRed (tick i s) = ledRed s \<and> ledGrn (tick i s) = ledGrn s \<and>
    servo1 (tick i s) = servo1 s \<and> servo2 (tick i s) = servo2 s \<and>
    new_events s (tick i s) =
      lcdHeader_events ''Password short'' ''Enter 8 chars'' @ [Delay 1000] @
      lcdHeader_events ''Enter Password:'' '''' @ masked_events (inputIndex s)"
  by (simp add: tick_submit_short [OF assms(1,3,2)] buffer_text_def)

theorem short_submit_only_reprompts_witness:
  "in_entry session_short \<and> inputIndex session_short < PASS_LEN \<and>
   failedAttempts (tick (press CHR ''#'') session_short) = 0 \<and>
   buffer_text (tick (press CHR ''#'') session_short) = ''1234'' \<and>
   state (tick (press CHR ''#'') session_short) = ENTRY \<and>
   new_events session_short (tick (press CHR ''#'') session_short) =
      lcdHeader_events ''Password short'' ''Enter 8 chars'' @ [Delay 1000] @
      lcdHeader_events ''Enter Password:'' '''' @ masked_events 4"
  using short_submit_only_reprompts [of session_short "press CHR ''#''"]
  by (simp add: session_short_facts in_entry_def buffer_text_def PASS_LEN_def press_def)

section \<open>A key on a full buffer (C4)\<close>

text \<open>
  C4, as the code has it: a key that is neither cancel nor submit, pressed while the buffer
  holds \<open>N\<close> characters, is answered with the short tone and nothing else; the buffer, its
  length, the attempt counter and the state stay as they were. The entry deadline does not:
  \<^verbatim>\<open>handleKeypad\<close> restarts the idle timer for every key before it looks at it, so the
  deadline moves to the idle timeout after this pass.
\<close>

theorem full_buffer_key_rejected:
  assumes "in_entry s" and "inputIndex s = PASS_LEN"
    and "in_key i \<noteq> CHR 0x00" and "\<not> control_key (in_key i)"
  shows "inputBuffer (tick i s) = inputBuffer s \<and> inputIndex (tick i s) = inputIndex s \<and>
    failedAttempts (tick i s) = failedAttempts s \<and> state (tick i s) = state s \<and>
    new_events s (tick i s) = [Tone PIN_BUZZER 600 50] \<and>
    entry_deadline (tick i s) = clock s + in_elapsed i + IDLE_TIMEOUT_MS"
proof -
  from assms(2) have "\<not> inputIndex s < PASS_LEN" by simp
  from tick_key_rejected [OF assms(1,3,4) this] show ?thesis
    by (simp add: entry_deadline_def PIN_BUZZER_def)
qed

theorem full_buffer_key_rejected_witness:
  "in_entry session_right \<and> inputIndex session_right = PASS_LEN \<and>
   \<not> control_key CHR ''9'' \<and>
   buffer_text (tick (press CHR ''9'') session_right) = ''12345678'' \<and>
   state (tick (press CHR ''9'') session_right) = ENTRY \<and>
   new_events session_right (tick (press CHR ''9'') session_right) = [Tone 5 600 50] \<and>
   entry_deadline (tick (press CHR ''9'') session_right) = 13500"
  using full_buffer_key_rejected [of session_right "press CHR ''9''"]
  by (simp add: session_right_facts in_entry_def control_key_def buffer_text_def
      config_defs press_def)

text \<open>
  C4 as stated says that the entry deadline stays as it was. In the session that has typed
  the eight characters \<open>12345678\<close>, the deadline is at 13400 ms; a ninth key five seconds
  later is rejected and moves it to 18400 ms.
\<close>

theorem full_buffer_key_moves_deadline:
  "reachable session_right \<and> in_entry session_right \<and>
   inputIndex session_right = PASS_LEN \<and>
   entry_deadline session_right = 13400 \<and>
   entry_deadline
     (tick \<lparr>in_key = CHR ''9'', in_motion = False, in_elapsed = 5000\<rparr> session_right) = 18400 \<and>
   entry_deadline
     (tick \<lparr>in_key = CHR ''9'', in_motion = False, in_elapsed = 5000\<rparr> session_right) \<noteq>
   entry_deadline session_right"
proof -
  have "tick \<lparr>in_key = CHR ''9'', in_motion = False, in_elapsed = 5000\<rparr> session_right =
      session_right\<lparr>clock := clock session_right + 5000,
        entryStartMs := clock session_right + 5000,
        trace := trace session_right @ [Tone 5 600 50]\<rparr>"
    by (simp add: tick_key_rejected session_right_facts in_entry_def control_key_def
        PASS_LEN_def)
  then show ?thesis
    by (simp add: reachable_session_right session_right_facts in_entry_def entry_deadline_def
        config_defs)
qed

section \<open>The countdown of the lockout (C5)\<close>

lemma printed_numbers_wait [simp]:
  "printed_numbers [LcdSetCursor 0 1, LcdPrint ''Wait '', LcdPrintNum n, LcdPrint '' sec   '']
     = [n]"
  by simp

lemma unat_div_1000: "unat ((x :: ulong) div 1000) = unat x div 1000"
proof -
  have "unat (1000 :: ulong) = 1000" by simp
  then show ?thesis by (simp only: unat_div)
qed

lemma deadline_minus_now:
  "LOCKOUT_MS - (now - lockoutStartMs s) = lockout_deadline s - now"
  by (simp add: lockout_deadline_def)

text \<open>
  C5, as the code has it: while the machine is locked and the lockout has not run out, a
  pass stays in LOCKED and displays the whole seconds that remain until the deadline, the
  remaining milliseconds divided by 1000 and rounded down.
\<close>

theorem lockout_countdown_rounds_down:
  assumes "state s = LOCKED"
    and "clock s + in_elapsed i - lockoutStartMs s < LOCKOUT_MS"
  shows "state (tick i s) = LOCKED \<and>
    printed_numbers (new_events s (tick i s)) =
      [(lockout_deadline s - (clock s + in_elapsed i)) div 1000] \<and>
    unat ((lockout_deadline s - (clock s + in_elapsed i)) div 1000) =
      unat (lockout_deadline s - (clock s + in_elapsed i)) div 1000"
proof -
  from assms(2) have "\<not> LOCKOUT_MS \<le> clock s + in_elapsed i - lockoutStartMs s"
    by simp
  from tick_locked_wait [OF assms(1) this] assms(1) show ?thesis
    by (simp add: deadline_minus_now unat_div_1000)
qed

theorem lockout_countdown_rounds_down_witness:
  "state session_locked = LOCKED \<and>
   clock session_locked + in_elapsed (nothing_for 0) - lockoutStartMs session_locked
     < LOCKOUT_MS \<and>
   state (tick (nothing_for 0) session_locked) = LOCKED \<and>
   printed_numbers (new_events session_locked (tick (nothing_for 0) session_locked)) = [14]"
  using lockout_countdown_rounds_down [of session_locked "nothing_for 0"]
  by (simp add: session_locked_facts lockout_deadline_def nothing_for_def LOCKOUT_MS_def)

text \<open>
  C5 as stated gives the ceiling. Right after the third denial the lockout has 14100 ms
  left: the ceiling of the seconds is 15, the display says 14.
\<close>

theorem lockout_countdown_not_ceiling:
  "reachable session_locked \<and> state session_locked = LOCKED \<and>
   unat (lockout_deadline session_locked - clock session_locked) = 14100 \<and>
   ceil_div (unat (lockout_deadline session_locked - clock session_locked)) 1000 = 15 \<and>
   printed_numbers (new_events session_locked (tick (nothing_for 0) session_locked)) = [14]"
proof -
  have "tick (nothing_for 0) session_locked =
      session_locked\<lparr>clock := clock session_locked + in_elapsed (nothing_for 0),
        trace := trace session_locked @
          [LcdSetCursor 0 1, LcdPrint ''Wait '',
           LcdPrintNum ((LOCKOUT_MS -
             (clock session_locked + in_elapsed (nothing_for 0) -
              lockoutStartMs session_locked)) div 1000),
           LcdPrint '' sec   '']\<rparr>"
    by (rule tick_locked_wait)
      (simp_all add: session_locked_facts nothing_for_def LOCKOUT_MS_def)
  then show ?thesis
    by (simp add: reachable_session_locked session_locked_facts lockout_deadline_def
        ceil_div_def nothing_for_def LOCKOUT_MS_def)
qed

section \<open>The input buffer (C6)\<close>

lemma buffer_text_accept:
  assumes "length b = 9" and "0 \<le> n" and "n < 8"
  shows "take (nat (n + 1)) (b[nat n := k]) = take (nat n) b @ [k]"
    and "take (nat (n + 1)) (b[nat n := k, 8 := c]) = take (nat n) b @ [k]"
proof -
  from assms have e: "nat (n + 1) = Suc (nat n)"
    by simp
  from assms have l: "nat n < length b" "Suc (nat n) \<le> 8"
    by simp_all
  from l(1) show 1: "take (nat (n + 1)) (b[nat n := k]) = take (nat n) b @ [k]"
    unfolding e by (simp add: take_Suc_conv_app_nth)
  from l(2) have "take (Suc (nat n)) (b[nat n := k, 8 := c]) =
      take (Suc (nat n)) (b[nat n := k])"
    by simp
  with 1 show "take (nat (n + 1)) (b[nat n := k, 8 := c]) = take (nat n) b @ [k]"
    unfolding e by simp
qed

lemma buffer_text_accept_if:
  assumes "length b = 9" and "0 \<le> n" and "n < 8"
  shows "take (nat (n + 1)) (if n + 1 = 8 then b[nat n := k, 8 := c] else b[nat n := k]) =
    take (nat n) b @ [k]"
proof (cases "n + 1 = 8")
  case True
  show ?thesis
    unfolding if_P [OF True] by (rule buffer_text_accept(2) [OF assms])
next
  case False
  show ?thesis
    unfolding if_not_P [OF False] by (rule buffer_text_accept(1) [OF assms])
qed

text \<open>
  C6, as the code has it: between passes the buffer holds between 0 and \<open>N\<close> characters.
  A pass that starts outside entry leaves the buffer and its length as they were, with one
  exception: the buffer of the last denied attempt is still there during the lockout, and
  the pass that ends the lockout clears it. In entry a key on a full buffer changes neither
  the buffer nor its length, and a key on a buffer that is not full is appended after the
  characters already there.
\<close>

theorem buffer_discipline:
  assumes "reachable s"
  shows "0 \<le> inputIndex s \<and> inputIndex s \<le> PASS_LEN \<and>
    length (buffer_text s) = nat (inputIndex s) \<and>
    (\<not> in_entry s \<and> \<not> (state s = LOCKED \<and> state (tick i s) = IDLE) \<longrightarrow>
       inputBuffer (tick i s) = inputBuffer s \<and> inputIndex (tick i s) = inputIndex s) \<and>
    (state s = LOCKED \<and> state (tick i s) = IDLE \<longrightarrow> buffer_text (tick i s) = []) \<and>
    (in_entry s \<and> inputIndex s = PASS_LEN \<and> in_key i \<noteq> CHR 0x00 \<and>
     \<not> control_key (in_key i) \<longrightarrow>
       inputBuffer (tick i s) = inputBuffer s \<and> inputIndex (tick i s) = inputIndex s) \<and>
    (in_entry s \<and> inputIndex s < PASS_LEN \<and> in_key i \<noteq> CHR 0x00 \<and>
     \<not> control_key (in_key i) \<longrightarrow>
       buffer_text (tick i s) = buffer_text s @ [in_key i])"
proof -
  from assms have inv: "lock_inv s" by (rule reachable_lock_inv)
  then have range: "0 \<le> inputIndex s \<and> inputIndex s \<le> PASS_LEN \<and>
      length (buffer_text s) = nat (inputIndex s)"
    by (auto simp: lock_inv_def buffer_text_def PASS_LEN_def)
  have outside: "inputBuffer (tick i s) = inputBuffer s \<and> inputIndex (tick i s) = inputIndex s"
    if "\<not> in_entry s" "\<not> (state s = LOCKED \<and> state (tick i s) = IDLE)"
    using that inv
    by (cases rule: tick_cases [of s i])
      (auto simp: tick_eqs lock_inv_def in_entry_def list_update_same_conv)
  have expiry: "buffer_text (tick i s) = []"
    if "state s = LOCKED" "state (tick i s) = IDLE"
    using that
    by (cases rule: tick_cases [of s i])
      (auto simp: tick_eqs in_entry_def buffer_text_def)
  have full: "inputBuffer (tick i s) = inputBuffer s \<and> inputIndex (tick i s) = inputIndex s"
    if "in_entry s" "inputIndex s = PASS_LEN" "in_key i \<noteq> CHR 0x00"
      "\<not> control_key (in_key i)"
    using that by (simp add: tick_key_rejected)
  have append: "buffer_text (tick i s) = buffer_text s @ [in_key i]"
    if "in_entry s" "inputIndex s < PASS_LEN" "in_key i \<noteq> CHR 0x00"
      "\<not> control_key (in_key i)"
  proof -
    from inv have "length (inputBuffer s) = 9" "0 \<le> inputIndex s"
      by (simp_all add: lock_inv_def)
    with that(2) have b: "length (inputBuffer s) = 9" "0 \<le> inputIndex s" "inputIndex s < 8"
      by (simp_all add: PASS_LEN_def)
    have ib: "inputBuffer (tick i s) =
        (if inputIndex s + 1 = 8
         then (inputBuffer s)[nat (inputIndex s) := in_key i, 8 := CHR 0x00]
         else (inputBuffer s)[nat (inputIndex s) := in_key i])"
      by (simp add: tick_key_accepted [OF that(1,3,4,2)] PASS_LEN_def)
    have ii: "inputIndex (tick i s) = inputIndex s + 1"
      by (simp add: tick_key_accepted [OF that(1,3,4,2)])
    show ?thesis
      unfolding buffer_text_def ib ii by (rule buffer_text_accept_if [OF b])
  qed
  from range outside expiry full append show ?thesis
    by blast
qed

theorem buffer_discipline_witness:
  "reachable session_short \<and> in_entry session_short \<and> inputIndex session_short < PASS_LEN \<and>
   \<not> control_key CHR ''5'' \<and> buffer_text session_short = ''1234'' \<and>
   buffer_text (tick (press CHR ''5'') session_short) = ''12345''"
  using buffer_discipline [OF reachable_session_short, of "press CHR ''5''"]
  by (simp add: reachable_session_short session_short_facts session_simps buffer_text_def)

text \<open>
  C6 as stated says that the buffer is never changed outside entry. After the third denial
  the machine is LOCKED with the eight characters \<open>87654321\<close> still in the buffer; the pass
  that finds the lockout over clears them.
\<close>

theorem buffer_cleared_at_lockout_expiry:
  "reachable session_locked \<and> state session_locked = LOCKED \<and> \<not> in_entry session_locked \<and>
   buffer_text session_locked = ''87654321'' \<and>
   buffer_text (tick (nothing_for 15000) session_locked) = [] \<and>
   inputIndex (tick (nothing_for 15000) session_locked) \<noteq> inputIndex session_locked \<and>
   inputBuffer (tick (nothing_for 15000) session_locked) \<noteq> inputBuffer session_locked"
  by (simp add: tick_locked_expired reachable_session_locked session_locked_facts
      session_simps buffer_text_def)

section \<open>The password comparison (C7)\<close>

lemma buffer_nine:
  assumes "length (b :: char list) = 9"
  obtains b0 b1 b2 b3 b4 b5 b6 b7 b8 where "b = [b0, b1, b2, b3, b4, b5, b6, b7, b8]"
proof -
  from assms have "length b = Suc (Suc (Suc (Suc (Suc (Suc (Suc (Suc (Suc 0))))))))"
    by simp
  then show ?thesis
    by (auto simp: length_Suc_conv intro: that)
qed

text \<open>
  C7, as the code has it: \<^verbatim>\<open>isPasswordCorrect\<close> answers true exactly when each of the
  \<open>N\<close> positions of the buffer equals the same position of the secret; it compares the
  positions in order and returns at the first one that differs, so it has compared one
  position more than the buffer and the secret have in common at the start, and all \<open>N\<close>
  only when the first \<open>N - 1\<close> agree.
\<close>

theorem isPasswordCorrect_first_mismatch:
  assumes "length (inputBuffer s) = nat (PASS_LEN + 1)"
  shows "(isPasswordCorrect s \<longleftrightarrow> (\<forall>j<nat PASS_LEN. inputBuffer s ! j = PASSWORD ! j)) \<and>
    snd (isPasswordCorrect_run s) =
      min (nat PASS_LEN) (Suc (first_mismatch (take (nat PASS_LEN) (inputBuffer s)) secret))"
proof
  show "isPasswordCorrect s \<longleftrightarrow> (\<forall>j<nat PASS_LEN. inputBuffer s ! j = PASSWORD ! j)"
    by (simp add: isPasswordCorrect_iff PASS_LEN_def)
next
  from assms have "length (inputBuffer s) = 9"
    by (simp add: PASS_LEN_def)
  then obtain b0 b1 b2 b3 b4 b5 b6 b7 b8
    where b: "inputBuffer s = [b0, b1, b2, b3, b4, b5, b6, b7, b8]"
    by (rule buffer_nine)
  show "snd (isPasswordCorrect_run s) =
      min (nat PASS_LEN) (Suc (first_mismatch (take (nat PASS_LEN) (inputBuffer s)) secret))"
    by (simp add: isPasswordCorrect_run_unfold b first_mismatch_def secret_def config_defs)
qed

theorem isPasswordCorrect_first_mismatch_witness:
  "length (inputBuffer session_wrong) = nat (PASS_LEN + 1) \<and>
   \<not> isPasswordCorrect session_wrong \<and> snd (isPasswordCorrect_run session_wrong) = 1 \<and>
   isPasswordCorrect session_right \<and> snd (isPasswordCorrect_run session_right) = 8"
  using isPasswordCorrect_first_mismatch [of session_wrong]
    isPasswordCorrect_first_mismatch [of session_right]
  by (simp add: session_wrong_facts session_right_facts first_mismatch_def secret_def
      config_defs all_less_8)

text \<open>
  C7 as stated says that all \<open>N\<close> positions are compared whatever the buffer holds. With
  the buffer \<open>87654321\<close> the loop returns after the first position.
\<close>

theorem isPasswordCorrect_early_exit:
  "snd (isPasswordCorrect_run session_wrong) = 1 \<and>
   snd (isPasswordCorrect_run session_wrong) \<noteq> nat PASS_LEN"
  by (simp add: isPasswordCorrect_run_unfold session_wrong_facts PASS_LEN_def)

section \<open>Key before timeout (C8)\<close>

lemma handleKeypad_then_timeout:
  assumes "in_entry s" and "k \<noteq> CHR 0x00"
  shows "handleTimeout (handleKeypad k s) = handleKeypad k s"
  using assms unfolding in_entry_def
  by (elim disjE)
    (simp_all add: handleTimeout_def handleKeypad_def go_eqs lcdHeader_eq
      printMaskedProgress_eq prim_defs Let_def config_defs)

text \<open>
  C8: a pass in entry is decided by exactly one of the two handlers. With a key, the pass is
  what \<^verbatim>\<open>handleKeypad\<close> does with it: the key restarts the idle timer, so the timeout
  check that follows finds nothing to do and the timeout notice is not shown, however long
  ago the timer was started. Without a key, the pass is the timeout check alone.
\<close>

theorem key_before_timeout:
  assumes "in_entry s"
  shows "(in_key i \<noteq> CHR 0x00 \<longrightarrow>
       tick i s = handleKeypad (in_key i) (s\<lparr>clock := clock s + in_elapsed i\<rparr>) \<and>
       ''Timeout'' \<notin> set (printed_text (new_events s (tick i s)))) \<and>
    (in_key i = CHR 0x00 \<longrightarrow>
       tick i s = handleTimeout (s\<lparr>clock := clock s + in_elapsed i\<rparr>))"
proof (intro conjI impI)
  from assms have e: "in_entry (s\<lparr>clock := clock s + in_elapsed i\<rparr>)"
    by (simp add: in_entry_def)
  from assms have t: "tick i s =
      handleTimeout (handleKeypad (in_key i) (s\<lparr>clock := clock s + in_elapsed i\<rparr>))"
    unfolding in_entry_def by (elim disjE) (simp_all add: tick_def loop_def)
  {
    assume k: "in_key i \<noteq> CHR 0x00"
    with t e show "tick i s = handleKeypad (in_key i) (s\<lparr>clock := clock s + in_elapsed i\<rparr>)"
      by (simp add: handleKeypad_then_timeout)
    from assms k show "''Timeout'' \<notin> set (printed_text (new_events s (tick i s)))"
      by (cases rule: tick_cases [of s i]) (simp_all add: tick_eqs)
  }
  {
    assume "in_key i = CHR 0x00"
    with t show "tick i s = handleTimeout (s\<lparr>clock := clock s + in_elapsed i\<rparr>)"
      by (simp add: handleKeypad_def)
  }
qed

theorem key_before_timeout_witness:
  "in_entry session_short \<and>
   IDLE_TIMEOUT_MS < clock session_short + 20000 - entryStartMs session_short \<and>
   state (tick \<lparr>in_key = CHR ''5'', in_motion = False, in_elapsed = 20000\<rparr> session_short)
     = ENTRY \<and>
   buffer_text (tick \<lparr>in_key = CHR ''5'', in_motion = False, in_elapsed = 20000\<rparr>
     session_short) = ''12345'' \<and>
   ''Timeout'' \<notin> set (printed_text (new_events session_short
     (tick \<lparr>in_key = CHR ''5'', in_motion = False, in_elapsed = 20000\<rparr> session_short))) \<and>
   state (tick (nothing_for 20000) session_short) = IDLE \<and>
   ''Timeout'' \<in> set (printed_text (new_events session_short
     (tick (nothing_for 20000) session_short)))"
proof -
  have e: "in_entry session_short"
    by (simp add: in_entry_def session_short_facts)
  have 1: "tick \<lparr>in_key = CHR ''5'', in_motion = False, in_elapsed = 20000\<rparr> session_short =
      session_short\<lparr>clock := clock session_short + 20000,
        entryStartMs := clock session_short + 20000,
        inputBuffer := (inputBuffer session_short)[4 := CHR ''5''],
        inputIndex := 5,
        trace := trace session_short @ masked_events 5\<rparr>"
    by (simp add: tick_key_accepted e session_short_facts control_key_def PASS_LEN_def)
  have 2: "tick (nothing_for 20000) session_short =
      session_short\<lparr>ledRed := False, ledGrn := False, servo1 := 0, servo2 := 180,
        clock := clock session_short + in_elapsed (nothing_for 20000) + 2600, inputIndex := 0,
        inputBuffer := (inputBuffer session_short)[0 := CHR 0x00],
        entryStartMs := clock session_short + in_elapsed (nothing_for 20000) + 2600,
        state := IDLE,
        trace := trace session_short @ lcdHeader_events ''Timeout'' ''Returning...'' @
          [Delay 800] @ goIdle_events\<rparr>"
    by (rule tick_no_key_timeout)
      (simp_all add: e session_short_facts nothing_for_def IDLE_TIMEOUT_MS_def)
  have k: "in_key \<lparr>in_key = CHR ''5'', in_motion = False, in_elapsed = 20000\<rparr> \<noteq> CHR 0x00"
    by simp
  from key_before_timeout [OF e,
      of "\<lparr>in_key = CHR ''5'', in_motion = False, in_elapsed = 20000\<rparr>"] k
  have a: "''Timeout'' \<notin> set (printed_text (new_events session_short
      (tick \<lparr>in_key = CHR ''5'', in_motion = False, in_elapsed = 20000\<rparr> session_short)))"
    by blast
  have b: "IDLE_TIMEOUT_MS < clock session_short + 20000 - entryStartMs session_short \<and>
      state (tick \<lparr>in_key = CHR ''5'', in_motion = False, in_elapsed = 20000\<rparr> session_short)
        = ENTRY \<and>
      buffer_text (tick \<lparr>in_key = CHR ''5'', in_motion = False, in_elapsed = 20000\<rparr>
        session_short) = ''12345''"
    by (simp add: 1 session_short_facts IDLE_TIMEOUT_MS_def buffer_text_def)
  have c: "state (tick (nothing_for 20000) session_short) = IDLE \<and>
      ''Timeout'' \<in> set (printed_text (new_events session_short
        (tick (nothing_for 20000) session_short)))"
    by (simp add: 2)
  from e a b c show ?thesis
    by blast
qed

section \<open>PROMPT and ENTRY are one state (C9)\<close>

lemma merge_state_idem [simp]: "merge_state (merge_state st) = merge_state st"
  by (cases st) simp_all

lemma merge_event_idem [simp]: "merge_event (merge_event e) = merge_event e"
  by (cases e) simp_all

lemma map_merge_event_idem [simp]:
  "map merge_event (map merge_event es) = map merge_event es"
  by simp

lemma merged_fields [simp]:
  "state (merged s) = merge_state (state s)"
  "inputBuffer (merged s) = inputBuffer s"
  "inputIndex (merged s) = inputIndex s"
  "failedAttempts (merged s) = failedAttempts s"
  "entryStartMs (merged s) = entryStartMs s"
  "lockoutStartMs (merged s) = lockoutStartMs s"
  "clock (merged s) = clock s"
  "trace (merged s) = map merge_event (trace s)"
  by (simp_all add: merged_def)

lemma in_entry_merged [simp]: "in_entry (merged s) = in_entry s"
  by (cases "state s") (simp_all add: in_entry_def)

lemma merged_locked [simp]: "state s = LOCKED \<Longrightarrow> merge_state (state s) = LOCKED"
  and merged_idle [simp]: "state s = IDLE \<Longrightarrow> merge_state (state s) = IDLE"
  by simp_all

lemma isPasswordCorrect_merged [simp]: "isPasswordCorrect (merged s) = isPasswordCorrect s"
  by (simp add: isPasswordCorrect_iff)

lemma merged_tick: "merged (tick i (merged s)) = merged (tick i s)"
proof (cases rule: tick_cases [of s i])
  case transient
  then have "state (merged s) = GRANTED \<or> state (merged s) = DENIED"
    by auto
  with transient show ?thesis
    by (simp add: tick_transient) (simp add: merged_def)
qed (simp_all add: tick_eqs, simp_all add: merged_def)

lemma isPasswordCorrect_entry [simp]:
  "isPasswordCorrect (s\<lparr>state := st, entryStartMs := e\<rparr>) = isPasswordCorrect s"
  "isPasswordCorrect (s\<lparr>entryStartMs := e, state := st\<rparr>) = isPasswordCorrect s"
  by (rule isPasswordCorrect_buffer, simp)+

lemma handleKeypad_state:
  "merged (handleKeypad k (s\<lparr>state := PROMPT\<rparr>)) = merged (handleKeypad k (s\<lparr>state := ENTRY\<rparr>))"
  by (cases "isPasswordCorrect s")
    (simp_all add: handleKeypad_def go_eqs lcdHeader_eq printMaskedProgress_eq prim_defs
      Let_def merged_def)

lemma handleTimeout_state:
  "merged (handleTimeout (s\<lparr>state := PROMPT\<rparr>)) = merged (handleTimeout (s\<lparr>state := ENTRY\<rparr>))"
  by (simp add: handleTimeout_def go_eqs lcdHeader_eq prim_defs merged_def)

text \<open>
  C9: seen through \<open>merged\<close>, which identifies PROMPT with ENTRY, the key handler and the
  timeout check do the same in State::PROMPT as in State::ENTRY, and a pass of the main loop
  from a machine and from its merged image end in the same merged machine: \<open>merged\<close> is a
  simulation of the six-state sketch by the five-state machine \<open>tick5\<close>, which never is in
  PROMPT.
\<close>

theorem prompt_is_entry:
  "merged (handleKeypad k (s\<lparr>state := PROMPT\<rparr>)) =
     merged (handleKeypad k (s\<lparr>state := ENTRY\<rparr>)) \<and>
   merged (handleTimeout (s\<lparr>state := PROMPT\<rparr>)) =
     merged (handleTimeout (s\<lparr>state := ENTRY\<rparr>)) \<and>
   merged (tick i s) = tick5 i (merged s) \<and>
   state (merged s) \<noteq> PROMPT \<and> state (tick5 i (merged s)) \<noteq> PROMPT"
proof -
  have "merge_state st \<noteq> PROMPT" for st
    by (cases st) simp_all
  then show ?thesis
    by (simp add: handleKeypad_state handleTimeout_state tick5_def merged_tick)
qed

theorem prompt_is_entry_witness:
  "state (tick (press CHR ''#'') session_wrong) = PROMPT \<and>
   state (merged (tick (press CHR ''#'') session_wrong)) = ENTRY \<and>
   merged (tick (press CHR ''1'') (tick (press CHR ''#'') session_wrong)) =
     tick5 (press CHR ''1'') (merged (tick (press CHR ''#'') session_wrong))"
proof -
  have "state (tick (press CHR ''#'') session_wrong) = PROMPT"
    by (simp add: tick_submit_denied_retry session_wrong_facts session_simps
        isPasswordCorrect_iff all_less_8)
  with prompt_is_entry [of "CHR ''1''" "tick (press CHR ''#'') session_wrong" "press CHR ''1''"]
  show ?thesis
    by simp
qed

section \<open>The idle machine is at rest (C10)\<close>

lemma handleTimeout_goIdle: "handleTimeout (goIdle x) = goIdle x"
  by (simp add: handleTimeout_def goIdle_eq)

lemma tick_into_idle:
  assumes "state s \<noteq> IDLE" and "state (tick i s) = IDLE"
  shows "\<exists>s0. tick i s = goIdle s0"
proof (cases "state s = LOCKED")
  case True
  with assms(2) show ?thesis
    by (auto simp: tick_def loop_def handleLockout_def Let_def prim_defs split: if_splits)
next
  case False
  show ?thesis
  proof (cases "in_entry s")
    case False
    with \<open>state s \<noteq> LOCKED\<close> assms have "state s = GRANTED \<or> state s = DENIED"
      by (cases "state s") (simp_all add: in_entry_def)
    with assms show ?thesis
      by (simp add: tick_transient)
  next
    case True
    show ?thesis
      using True assms(2)
    proof (cases rule: tick_cases [of s i])
      case no_key_timeout
      then have "tick i s =
          goIdle (delay 800 (lcdHeader ''Timeout'' ''Returning...''
            (s\<lparr>clock := clock s + in_elapsed i\<rparr>)))"
        unfolding in_entry_def
        by (elim disjE) (simp_all add: handler_defs millis_def)
      then show ?thesis by blast
    next
      case cancel
      then have "tick i s =
          goIdle (delay 800 (lcdHeader ''Cancelled'' ''Returning...''
            (s\<lparr>clock := clock s + in_elapsed i, entryStartMs := clock s + in_elapsed i\<rparr>)))"
        unfolding in_entry_def
        by (elim disjE)
          (simp_all add: tick_def loop_def handleKeypad_def millis_def handleTimeout_goIdle)
      then show ?thesis by blast
    next
      case submit_granted
      then have "tick i s = s\<lparr>failedAttempts := 0, ledRed := False, ledGrn := False,
          servo1 := 0, servo2 := 180, clock := clock s + in_elapsed i + 10270,
          inputIndex := 0, inputBuffer := (inputBuffer s)[0 := CHR 0x00],
          entryStartMs := clock s + in_elapsed i + 10270, state := IDLE,
          trace := trace s @ goGranted_events\<rparr>"
        by (rule tick_submit_granted)
      also have "\<dots> = goGranted (s\<lparr>clock := clock s + in_elapsed i,
          entryStartMs := clock s + in_elapsed i, failedAttempts := 0\<rparr>)"
        by (simp add: goGranted_eq)
      finally show ?thesis
        unfolding goGranted_def by blast
    qed (simp_all add: tick_eqs in_entry_def)
  qed
qed

text \<open>
  C10: the machine becomes idle only through \<^verbatim>\<open>goIdle\<close>: the start-up ends with it, and
  a pass that starts in another state and ends in IDLE ends with it (cancel, entry timeout,
  end of the lockout, end of the granted sequence). So whenever the machine is idle between
  passes, both LEDs are off, both servos are at their closed angles and the buffer is empty.
\<close>

theorem idle_only_through_goIdle:
  "(\<exists>s0. setup_sketch (power_on a1 a2) = goIdle s0) \<and>
   (state s \<noteq> IDLE \<and> state (tick i s) = IDLE \<longrightarrow> (\<exists>s0. tick i s = goIdle s0)) \<and>
   (reachable s \<and> state s = IDLE \<longrightarrow>
      \<not> ledRed s \<and> \<not> ledGrn s \<and> servo1 s = SERVO1_CLOSED \<and> servo2 s = SERVO2_CLOSED \<and>
      inputIndex s = 0 \<and> buffer_text s = [])"
proof (intro conjI impI)
  show "\<exists>s0. setup_sketch (power_on a1 a2) = goIdle s0"
    unfolding setup_sketch_def by blast
next
  assume "state s \<noteq> IDLE \<and> state (tick i s) = IDLE"
  then show "\<exists>s0. tick i s = goIdle s0"
    by (simp add: tick_into_idle)
next
  assume "reachable s \<and> state s = IDLE"
  then have "lock_inv s" "state s = IDLE"
    by (simp_all add: reachable_lock_inv)
  then have *: "\<not> ledRed s \<and> \<not> ledGrn s \<and> servo1 s = SERVO1_CLOSED \<and>
      servo2 s = SERVO2_CLOSED \<and> inputIndex s = 0 \<and> buffer_text s = []"
    by (simp add: lock_inv_def buffer_text_def)
  from * show "\<not> ledRed s" by simp
  from * show "\<not> ledGrn s" by simp
  from * show "servo1 s = SERVO1_CLOSED" by simp
  from * show "servo2 s = SERVO2_CLOSED" by simp
  from * show "inputIndex s = 0" by simp
  from * show "buffer_text s = []" by simp
qed

theorem idle_only_through_goIdle_witness:
  "reachable (tick (press CHR ''*'') session_short) \<and> state session_short \<noteq> IDLE \<and>
   state (tick (press CHR ''*'') session_short) = IDLE \<and>
   (\<exists>s0. tick (press CHR ''*'') session_short = goIdle s0) \<and>
   \<not> ledRed (tick (press CHR ''*'') session_short) \<and>
   \<not> ledGrn (tick (press CHR ''*'') session_short) \<and>
   servo1 (tick (press CHR ''*'') session_short) = 0 \<and>
   servo2 (tick (press CHR ''*'') session_short) = 180 \<and>
   buffer_text (tick (press CHR ''*'') session_short) = []"
proof -
  have r: "reachable (tick (press CHR ''*'') session_short)"
    by (rule reachable.step) (rule reachable_session_short)
  have st: "state (tick (press CHR ''*'') session_short) = IDLE"
    by (simp add: tick_cancel session_short_facts session_simps)
  from idle_only_through_goIdle [of 90 90 session_short "press CHR ''*''"]
    idle_only_through_goIdle [of 90 90 "tick (press CHR ''*'') session_short" "press CHR ''*''"]
    r st
  show ?thesis
    by (simp add: session_short_facts config_defs)
qed

end
